theory Spec2Isabelle
  imports Complex_Main "HOL-Library.Sublist" "HOL-Library.Monad_Syntax"
begin

section \<open>Data model\<close>

text \<open>
  The program is the JavaScript module \<^verbatim>\<open>fractal.js\<close> (classes \<^verbatim>\<open>FractalNode\<close> and
  \<^verbatim>\<open>FractalAlgorithm\<close>). JavaScript numbers are modelled as \<^typ>\<open>real\<close> (no rounding);
  the one non-number a claim depends on, \<^verbatim>\<open>NaN\<close>, is a value of its own. Strings are
  \<^typ>\<open>string\<close>, one \<^typ>\<open>char\<close> per code unit below 256 (Latin-1). An optional field is
  an \<^typ>\<open>'a option\<close>, \<open>None\<close> standing for \<^verbatim>\<open>undefined\<close>. Identifiers that begin with
  an underscore in the source lose it here (\<^verbatim>\<open>_buildTree\<close> is \<open>buildTree\<close>).
\<close>

text \<open>
  A task as the task store hands it over. \<open>task_subtasks\<close>, \<open>task_dependencies\<close> and
  \<open>task_complexity\<close> are the fields \<^verbatim>\<open>subtasks\<close>, \<^verbatim>\<open>dependencies\<close> and
  \<^verbatim>\<open>complexity\<close> that the algorithm reads; the store itself never sets them.
\<close>

datatype Task = Task
  (task_id: string)
  (task_title: string)
  (task_description: "string option")
  (task_status: "string option")
  (task_subtasks: "Task list option")
  (task_dependencies: "string list option")
  (task_complexity: "real option")

record position =
  pos_x :: real
  pos_y :: real
  pos_z :: real

datatype FractalNode = FractalNode
  (node_task: Task)
  (node_depth: nat)
  (node_children: "FractalNode list")
  (node_position: position)
  (node_size: real)
  (node_complexity: real)

record FractalAlgorithm =
  maxDepth :: nat
  minTaskSize :: real
  spreadFactor :: real
  root :: "FractalNode option"

text \<open>The constructor of \<^verbatim>\<open>FractalAlgorithm\<close>.\<close>

definition new_FractalAlgorithm :: FractalAlgorithm where
  "new_FractalAlgorithm = \<lparr>maxDepth = 5, minTaskSize = 0.1, spreadFactor = 1.5, root = None\<rparr>"

section \<open>FractalNode\<close>

text \<open>
  \<^verbatim>\<open>if (task.description)\<close> is taken by a non-empty string only; \<^verbatim>\<open>if (task.subtasks)\<close>
  by any array, the empty one included.
\<close>

definition calculateComplexity :: "Task \<Rightarrow> real" where
  "calculateComplexity task =
     (let score = 1;
          score = (case task_description task of
                     Some d \<Rightarrow> if d \<noteq> [] then score + min 5 (real (length d) / 100) else score
                   | None \<Rightarrow> score);
          score = (case task_subtasks task of
                     Some subs \<Rightarrow> score + real (length subs)
                   | None \<Rightarrow> score)
      in min 10 score)"

text \<open>The constructor \<^verbatim>\<open>new FractalNode(task, depth)\<close>.\<close>

definition new_FractalNode :: "Task \<Rightarrow> nat \<Rightarrow> FractalNode" where
  "new_FractalNode task depth =
     FractalNode task depth [] \<lparr>pos_x = 0, pos_y = 0, pos_z = 0\<rparr> 1.0 (calculateComplexity task)"

text \<open>
  \<^verbatim>\<open>updateLayout\<close> with the body of its \<^verbatim>\<open>forEach\<close> as \<open>forEach_child\<close>, which
  carries the index. A node owns its children (each is built by one call of
  \<^verbatim>\<open>_buildTree\<close> and pushed to one parent), so the update in place is the rebuilt
  value. With no children the source computes \<^verbatim>\<open>angleStep = 2\<pi>/0 = Infinity\<close> and raises
  nothing; here \<open>2 * pi / 0 = 0\<close>, and in both the value is never read, since the loop
  body does not run.
\<close>

fun updateLayout :: "FractalNode \<Rightarrow> FractalNode"
  and forEach_child :: "position \<Rightarrow> real \<Rightarrow> real \<Rightarrow> nat \<Rightarrow> FractalNode list \<Rightarrow> FractalNode list"
where
  "updateLayout (FractalNode t d cs p s c) =
     (let angleStep = (2 * pi) / real (length cs);
          radius = max 0.5 (real (length cs) * 0.2)
      in FractalNode t d (forEach_child p angleStep radius 0 cs) p s c)"
| "forEach_child p angleStep radius index [] = []"
| "forEach_child p angleStep radius index (FractalNode t d cs q s c # rest) =
     (let angle = angleStep * real index
      in updateLayout (FractalNode t d cs
           \<lparr>pos_x = pos_x p + cos angle * radius,
            pos_y = pos_y p - 0.5,
            pos_z = pos_z p + sin angle * radius\<rparr> s c)
         # forEach_child p angleStep radius (index + 1) rest)"

definition addChild :: "FractalNode \<Rightarrow> FractalNode \<Rightarrow> FractalNode" where
  "addChild node child =
     updateLayout (FractalNode (node_task node) (node_depth node) (node_children node @ [child])
                     (node_position node) (node_size node) (node_complexity node))"

section \<open>FractalAlgorithm: building the tree\<close>

lemma size_subtask [termination_simp]:
  "task_subtasks task = Some subs \<Longrightarrow> s \<in> set subs \<Longrightarrow> size s < size task"
  by (cases task)
     (auto simp: less_Suc_eq_le
           dest!: size_list_estimation'[where f=size and y="size s", OF _ order_refl])

fun buildTree :: "FractalAlgorithm \<Rightarrow> Task \<Rightarrow> nat \<Rightarrow> FractalNode" where
  "buildTree this task depth =
     (let node = new_FractalNode task depth
      in case task_subtasks task of
           Some subs \<Rightarrow>
             if depth < maxDepth this
             then foldl (\<lambda>node subtask. addChild node (buildTree this subtask (depth + 1))) node subs
             else node
         | None \<Rightarrow> node)"

declare buildTree.simps [simp del]

text \<open>
  \<^verbatim>\<open>createFractalTree\<close> stores the tree in \<^verbatim>\<open>this.root\<close> and returns it: the result is
  the tree and the algorithm object after the call.
\<close>

definition createFractalTree :: "FractalAlgorithm \<Rightarrow> Task \<Rightarrow> FractalNode \<times> FractalAlgorithm" where
  "createFractalTree this task =
     (let r = buildTree this task 0;
          r = FractalNode (node_task r) (node_depth r) (node_children r)
                \<lparr>pos_x = 0, pos_y = 2, pos_z = 0\<rparr> (node_size r) (node_complexity r);
          r = updateLayout r
      in (r, this\<lparr>root := Some r\<rparr>))"

section \<open>Strings and the regular expressions of the source\<close>

text \<open>
  \<open>is_space\<close> is the class \<^verbatim>\<open>\s\<close> (and what \<^verbatim>\<open>trim\<close> strips) below code 256: tab,
  line feed, vertical tab, form feed, carriage return, space and no-break space.
  \<open>is_word\<close> is \<^verbatim>\<open>\w\<close>: ASCII letters, digits and the underscore.
\<close>

definition is_space :: "char \<Rightarrow> bool" where
  "is_space c = ((of_char c :: nat) \<in> {9, 10, 11, 12, 13, 32, 160})"

definition is_word :: "char \<Rightarrow> bool" where
  "is_word c =
     (let n = (of_char c :: nat)
      in (48 \<le> n \<and> n \<le> 57) \<or> (65 \<le> n \<and> n \<le> 90) \<or> n = 95 \<or> (97 \<le> n \<and> n \<le> 122))"

text \<open>\<^verbatim>\<open>[.!?]\<close>, the separator of sentences, and \<^verbatim>\<open>[,.!?]\<close>, what ends a feature phrase.\<close>

definition is_sentence_end :: "char \<Rightarrow> bool" where
  "is_sentence_end c = (c \<in> {CHR ''.'', CHR ''!'', CHR ''?''})"

definition is_phrase_end :: "char \<Rightarrow> bool" where
  "is_phrase_end c = (c \<in> {CHR '','', CHR ''.'', CHR ''!'', CHR ''?''})"

text \<open>
  \<^verbatim>\<open>String.prototype.toLowerCase\<close> on Latin-1: \<^verbatim>\<open>A\<close>-\<^verbatim>\<open>Z\<close> and the accented capitals
  \<^verbatim>\<open>0xC0\<close>-\<^verbatim>\<open>0xDE\<close> (but not the multiplication sign \<^verbatim>\<open>0xD7\<close>) move up by 32.
\<close>

definition lower_char :: "char \<Rightarrow> char" where
  "lower_char c =
     (let n = (of_char c :: nat)
      in if (65 \<le> n \<and> n \<le> 90) \<or> (192 \<le> n \<and> n \<le> 222 \<and> n \<noteq> 215)
         then char_of (n + 32) else c)"

definition toLowerCase :: "string \<Rightarrow> string" where
  "toLowerCase s = map lower_char s"

text \<open>\<^verbatim>\<open>String.prototype.includes\<close>: the pattern occurs at some offset.\<close>

fun str_includes :: "string \<Rightarrow> string \<Rightarrow> bool" where
  "str_includes [] pat = (pat = [])"
| "str_includes (c # cs) pat = (prefix pat (c # cs) \<or> str_includes cs pat)"

definition trim :: "string \<Rightarrow> string" where
  "trim s = rev (dropWhile is_space (rev (dropWhile is_space s)))"

text \<open>
  \<^verbatim>\<open>s.split(/[...]+/)\<close> for a separator that is one or more characters of a class:
  the pieces between the maximal runs of separator characters, an empty piece
  before a leading run and after a trailing one. The empty string gives one empty piece.
\<close>

function split_plus :: "(char \<Rightarrow> bool) \<Rightarrow> string \<Rightarrow> string list" where
  "split_plus sep s =
     (let piece = takeWhile (\<lambda>c. \<not> sep c) s;
          rest = dropWhile (\<lambda>c. \<not> sep c) s
      in if rest = [] then [piece] else piece # split_plus sep (dropWhile sep rest))"
  by pat_completeness auto

lemma split_plus_shorter:
  assumes "dropWhile (\<lambda>c. \<not> sep c) s \<noteq> []"
  shows "length (dropWhile sep (dropWhile (\<lambda>c. \<not> sep c) s)) < length s"
proof -
  obtain c r where cr: "dropWhile (\<lambda>c. \<not> sep c) s = c # r"
    using assms by (cases "dropWhile (\<lambda>c. \<not> sep c) s") auto
  then have "sep c"
    using hd_dropWhile[of "\<lambda>c. \<not> sep c" s] by auto
  then have "length (dropWhile sep (c # r)) \<le> length r"
    by (simp add: length_dropWhile_le)
  moreover have "length (c # r) \<le> length s"
    using cr length_dropWhile_le[of "\<lambda>c. \<not> sep c" s] by simp
  ultimately show ?thesis
    using cr by simp
qed

termination split_plus
  by (relation "measure (\<lambda>(sep, s). length s)") (auto intro: split_plus_shorter)

declare split_plus.simps [simp del]

text \<open>
  A pattern letter matches a text character under the flag \<^verbatim>\<open>i\<close> when the two have the
  same upper case; the keywords are lower-case ASCII, so that is: the text character,
  with \<^verbatim>\<open>A\<close>-\<^verbatim>\<open>Z\<close> lowered, is the pattern letter.
\<close>

definition ascii_lower :: "char \<Rightarrow> char" where
  "ascii_lower c =
     (let n = (of_char c :: nat) in if 65 \<le> n \<and> n \<le> 90 then char_of (n + 32) else c)"

definition matches_ci :: "string \<Rightarrow> string \<Rightarrow> bool" where
  "matches_ci kw s = (length kw \<le> length s \<and> map ascii_lower (take (length kw) s) = kw)"

text \<open>
  \<^verbatim>\<open>\b\<close> between the character before the position (\<open>None\<close> at the start of the text)
  and the text from the position on.
\<close>

definition word_boundary :: "char option \<Rightarrow> string \<Rightarrow> bool" where
  "word_boundary prev s =
     ((case prev of None \<Rightarrow> False | Some c \<Rightarrow> is_word c)
      \<noteq> (case s of [] \<Rightarrow> False | c # _ \<Rightarrow> is_word c))"

text \<open>
  \<^verbatim>\<open>/\b(implement|develop|create|integrate|optimize|refactor|test)\b/gi\<close> tried at one
  position: the length of the match, the alternatives in their order.
\<close>

definition technical_keywords :: "string list" where
  "technical_keywords =
     [''implement'', ''develop'', ''create'', ''integrate'', ''optimize'', ''refactor'', ''test'']"

definition technical_match_at :: "char option \<Rightarrow> string \<Rightarrow> nat option" where
  "technical_match_at prev s =
     (if word_boundary prev s
      then (case filter (\<lambda>kw. matches_ci kw s
                               \<and> word_boundary (Some (s ! (length kw - 1))) (drop (length kw) s))
                        technical_keywords of
              [] \<Rightarrow> None
            | kw # _ \<Rightarrow> Some (length kw))
      else None)"

text \<open>
  \<^verbatim>\<open>text.match(/.../gi)\<close>: the matches from left to right, the search resuming where
  the last match ended; only their number is used.
\<close>

fun count_technical :: "char option \<Rightarrow> string \<Rightarrow> nat" where
  "count_technical prev [] = 0"
| "count_technical prev (c # cs) =
     (case technical_match_at prev (c # cs) of
        Some n \<Rightarrow> Suc (count_technical (Some ((c # cs) ! (n - 1))) (drop (n - 1) cs))
      | None \<Rightarrow> count_technical (Some c) cs)"

section \<open>FractalAlgorithm: complexity analysis\<close>

definition analyzeTextComplexity :: "string \<Rightarrow> real" where
  "analyzeTextComplexity text =
     (let words = length (split_plus is_space text);
          sentences = length (split_plus is_sentence_end text);
          technicalTerms = count_technical None text
      in min 5 (real words / 50 + real sentences / 5 + real technicalTerms * 0.5))"

fun analyzeComplexity :: "Task \<Rightarrow> real" where
  "analyzeComplexity task =
     (let score = 1;
          score = (case task_description task of
                     Some d \<Rightarrow> if d \<noteq> [] then score + analyzeTextComplexity d else score
                   | None \<Rightarrow> score);
          score = (case task_subtasks task of
                     Some subs \<Rightarrow>
                       foldl (\<lambda>score subtask. score + analyzeComplexity subtask * 0.5)
                             (score + real (length subs)) subs
                   | None \<Rightarrow> score);
          score = (case task_dependencies task of
                     Some deps \<Rightarrow> score + real (length deps) * 0.5
                   | None \<Rightarrow> score)
      in min 10 score)"

declare analyzeComplexity.simps [simp del]

section \<open>JavaScript values that are not numbers\<close>

text \<open>
  \<^verbatim>\<open>NaN\<close> is what \<^verbatim>\<open>undefined * x\<close> evaluates to, and what \<^verbatim>\<open>Math.min\<close> returns when an
  argument is \<^verbatim>\<open>NaN\<close>. \<^verbatim>\<open>TypeError\<close> is what reading a property of \<^verbatim>\<open>undefined\<close>
  raises.
\<close>

datatype jsnum = Num real | NaN

datatype js_error = TypeError

fun js_times :: "real option \<Rightarrow> real \<Rightarrow> jsnum" where
  "js_times None y = NaN"
| "js_times (Some x) y = Num (x * y)"

fun js_min :: "real \<Rightarrow> jsnum \<Rightarrow> jsnum" where
  "js_min a NaN = NaN"
| "js_min a (Num b) = Num (min a b)"

section \<open>FractalAlgorithm: suggesting a decomposition\<close>

text \<open>
  \<^verbatim>\<open>task.description?.toLowerCase() || ''\<close>: the lowered description, the empty string
  when there is none.
\<close>

definition identifyPatterns :: "Task \<Rightarrow> string list" where
  "identifyPatterns task =
     (let description = (case task_description task of Some d \<Rightarrow> toLowerCase d | None \<Rightarrow> []);
          patterns = [];
          patterns = (if str_includes description ''implement'' \<or> str_includes description ''develop''
                         \<or> str_includes description ''create''
                      then patterns @ [''core-components''] else patterns);
          patterns = (if str_includes description ''feature''
                         \<or> str_includes description ''functionality''
                      then patterns @ [''feature-breakdown''] else patterns);
          patterns = (if str_includes description ''improve'' \<or> str_includes description ''optimize''
                      then patterns @ [''optimization''] else patterns)
      in patterns)"

text \<open>
  \<^verbatim>\<open>/\b(implement|add|create|develop)\s+([^,.!?]+)/i\<close> tried at one position; the
  result is the second group. After the keyword, \<^verbatim>\<open>\s+\<close> takes the whole run of
  white space and the group the longest run of characters that do not end a phrase.
  When nothing but the end of the text or a phrase end follows the white space, the
  engine backtracks: \<^verbatim>\<open>\s+\<close> gives back its last character, which becomes the group,
  provided one white space character is left for \<^verbatim>\<open>\s+\<close>.
\<close>

definition feature_keywords :: "string list" where
  "feature_keywords = [''implement'', ''add'', ''create'', ''develop'']"

definition phrase_after :: "string \<Rightarrow> string option" where
  "phrase_after s =
     (let ws = takeWhile is_space s;
          phrase = takeWhile (\<lambda>c. \<not> is_phrase_end c) (dropWhile is_space s)
      in if ws = [] then None
         else if phrase \<noteq> [] then Some phrase
         else if 2 \<le> length ws then Some [last ws]
         else None)"

definition feature_match_at :: "char option \<Rightarrow> string \<Rightarrow> string option" where
  "feature_match_at prev s =
     (if word_boundary prev s
      then (case filter (\<lambda>kw. matches_ci kw s \<and> phrase_after (drop (length kw) s) \<noteq> None)
                        feature_keywords of
              [] \<Rightarrow> None
            | kw # _ \<Rightarrow> phrase_after (drop (length kw) s))
      else None)"

text \<open>\<^verbatim>\<open>sentence.match(...)\<close> without the flag \<^verbatim>\<open>g\<close>: the leftmost match.\<close>

fun feature_match :: "char option \<Rightarrow> string \<Rightarrow> string option" where
  "feature_match prev [] = feature_match_at prev []"
| "feature_match prev (c # cs) =
     (case feature_match_at prev (c # cs) of
        Some phrase \<Rightarrow> Some phrase
      | None \<Rightarrow> feature_match (Some c) cs)"

definition extractFeatures :: "string \<Rightarrow> string list" where
  "extractFeatures description =
     (let sentences = split_plus is_sentence_end description;
          features = concat (map (\<lambda>sentence.
                        case feature_match None sentence of
                          Some phrase \<Rightarrow> [trim phrase]
                        | None \<Rightarrow> []) sentences)
      in if 0 < length features then features else [''Core Feature''])"

text \<open>
  What a call of \<^verbatim>\<open>_createSubtask\<close> reads from the host: \<^verbatim>\<open>Date.now()\<close>,
  \<^verbatim>\<open>Math.random()\<close> and \<^verbatim>\<open>new Date().toISOString()\<close>.
\<close>

record host =
  now :: real
  random :: real
  iso :: string

record subtask =
  sub_id :: real
  sub_title :: string
  sub_description :: string
  sub_status :: string
  sub_parentId :: string
  sub_complexity :: jsnum
  sub_created :: string

text \<open>
  \<^verbatim>\<open>parentTask.complexity * complexityFactor\<close> reads the field \<^verbatim>\<open>complexity\<close> of the
  task, not the score that \<^verbatim>\<open>suggestDecomposition\<close> computed.
\<close>

definition createSubtask :: "host \<Rightarrow> Task \<Rightarrow> string \<Rightarrow> real \<Rightarrow> subtask" where
  "createSubtask h parentTask title complexityFactor =
     \<lparr>sub_id = now h + random h,
      sub_title = title,
      sub_description = ''Part of: '' @ task_title parentTask,
      sub_status = ''Not Started'',
      sub_parentId = task_id parentTask,
      sub_complexity = js_times (task_complexity parentTask) complexityFactor,
      sub_created = iso h\<rparr>"

text \<open>
  How a template literal prints a natural number: its decimal digits, the last digit
  read off the remainder by 10.
\<close>

fun digits_of :: "nat \<Rightarrow> string" where
  "digits_of n =
     (let d = ''0123456789'' ! (n mod 10)
      in if n div 10 = 0 then [d] else digits_of (n div 10) @ [d])"

declare digits_of.simps [simp del]

text \<open>
  \<open>env k\<close> is what the host gives the call of \<^verbatim>\<open>_createSubtask\<close> number \<open>k\<close>. In the
  second branch \<^verbatim>\<open>task.description\<close> is used as a string; it is one whenever that
  branch is taken, and the model raises the \<^verbatim>\<open>TypeError\<close> of the source otherwise.

  \<open>suggestDecomposition_with\<close> is the body of \<^verbatim>\<open>suggestDecomposition\<close> from the point
  where the constant \<^verbatim>\<open>complexity\<close> holds the score, as a function of that value. The
  source computes the score in doubles, and the number of phases changes where the
  rounded score crosses an even number; what holds of \<open>suggestDecomposition_with\<close> for
  every value of \<open>complexity\<close> holds of the source whatever the rounding did.
  \<open>suggestDecomposition\<close> passes the score as \<open>analyzeComplexity\<close> gives it, in reals.
\<close>

definition suggestDecomposition_with ::
  "real \<Rightarrow> (nat \<Rightarrow> host) \<Rightarrow> Task \<Rightarrow> js_error + subtask list" where
  "suggestDecomposition_with complexity env task =
     (let patterns = identifyPatterns task
      in if ''core-components'' \<in> set patterns
         then Inr [createSubtask (env 0) task ''Research & Planning'' 0.2,
                   createSubtask (env 1) task ''Core Implementation'' 0.4,
                   createSubtask (env 2) task ''Testing & Validation'' 0.2,
                   createSubtask (env 3) task ''Documentation'' 0.2]
         else if ''feature-breakdown'' \<in> set patterns
         then (case task_description task of
                 None \<Rightarrow> Inl TypeError
               | Some description \<Rightarrow>
                   (let features = extractFeatures description
                    in Inr (map (\<lambda>k. createSubtask (env k) task (features ! k)
                                        (1.0 / real (length features)))
                                [0..<length features])))
         else (let numSubtasks = max 2 (min 5 \<lceil>complexity / 2\<rceil>)
               in Inr (map (\<lambda>i. createSubtask (env i) task (''Phase '' @ digits_of (i + 1))
                                    (1.0 / real_of_int numSubtasks))
                           [0..<nat numSubtasks])))"

definition suggestDecomposition :: "(nat \<Rightarrow> host) \<Rightarrow> Task \<Rightarrow> js_error + subtask list" where
  "suggestDecomposition env task =
     (let complexity = analyzeComplexity task
      in suggestDecomposition_with complexity env task)"

section \<open>FractalAlgorithm: visual properties\<close>

definition calculateSize :: "FractalAlgorithm \<Rightarrow> FractalNode \<Rightarrow> real" where
  "calculateSize this node =
     (let depthFactor = 0.8 ^ node_depth node;
          complexityFactor = 0.5 + node_complexity node / 20
      in max (minTaskSize this) (depthFactor * complexityFactor))"

record color =
  col_r :: jsnum
  col_g :: jsnum
  col_b :: jsnum

text \<open>
  \<^verbatim>\<open>baseColors[status]\<close>. The literal has four own properties; it inherits the
  properties of \<^verbatim>\<open>Object.prototype\<close>, none of which has a property \<^verbatim>\<open>r\<close>, \<^verbatim>\<open>g\<close> or
  \<^verbatim>\<open>b\<close>; any other name gives \<^verbatim>\<open>undefined\<close>.
\<close>

datatype base_color = Own real real real | Inherited | Undefined

definition object_prototype_names :: "string list" where
  "object_prototype_names =
     [''constructor'', ''toString'', ''toLocaleString'', ''valueOf'', ''hasOwnProperty'',
      ''isPrototypeOf'', ''propertyIsEnumerable'', ''__proto__'', ''__defineGetter__'',
      ''__defineSetter__'', ''__lookupGetter__'', ''__lookupSetter__'']"

definition baseColors :: "string \<Rightarrow> base_color" where
  "baseColors status =
     (if status = ''Not Started'' then Own 128 128 128
      else if status = ''In Progress'' then Own 79 70 229
      else if status = ''Completed'' then Own 34 197 94
      else if status = ''Blocked'' then Own 239 68 68
      else if status \<in> set object_prototype_names then Inherited
      else Undefined)"

text \<open>\<^verbatim>\<open>node.task.status || 'Not Started'\<close>: a missing or empty status is replaced.\<close>

definition calculateColor :: "FractalNode \<Rightarrow> js_error + color" where
  "calculateColor node =
     (let status = (case task_status (node_task node) of
                      Some st \<Rightarrow> if st \<noteq> [] then st else ''Not Started''
                    | None \<Rightarrow> ''Not Started'');
          intensity = 0.5 + node_complexity node / 20
      in case baseColors status of
           Own cr cg cb \<Rightarrow>
             Inr \<lparr>col_r = js_min 255 (js_times (Some cr) intensity),
                  col_g = js_min 255 (js_times (Some cg) intensity),
                  col_b = js_min 255 (js_times (Some cb) intensity)\<rparr>
         | Inherited \<Rightarrow>
             Inr \<lparr>col_r = js_min 255 (js_times None intensity),
                  col_g = js_min 255 (js_times None intensity),
                  col_b = js_min 255 (js_times None intensity)\<rparr>
         | Undefined \<Rightarrow> Inl TypeError)"

definition calculateConnectionStrength :: "FractalAlgorithm \<Rightarrow> FractalNode \<Rightarrow> FractalNode \<Rightarrow> real" where
  "calculateConnectionStrength this parent child =
     (let depthFactor = 1 - real (node_depth child) / real (maxDepth this);
          complexityFactor = (node_complexity parent + node_complexity child) / 20
      in max 0.2 (min 1 (depthFactor * complexityFactor)))"

record connection =
  conn_from :: position
  conn_to :: position
  strength :: real

fun calculateConnections :: "FractalAlgorithm \<Rightarrow> FractalNode \<Rightarrow> connection list" where
  "calculateConnections this (FractalNode t d cs p s c) =
     concat (map (\<lambda>child.
                    \<lparr>conn_from = p, conn_to = node_position child,
                     strength = calculateConnectionStrength this (FractalNode t d cs p s c) child\<rparr>
                    # calculateConnections this child) cs)"

section \<open>Walking a tree\<close>

text \<open>
  The nodes of a tree, parent first, and its parent-child edges in the order in which
  \<^verbatim>\<open>_calculateConnections\<close> visits them.
\<close>

fun nodes :: "FractalNode \<Rightarrow> FractalNode list" where
  "nodes (FractalNode t d cs p s c) = FractalNode t d cs p s c # concat (map nodes cs)"

fun edges :: "FractalNode \<Rightarrow> (FractalNode \<times> FractalNode) list" where
  "edges (FractalNode t d cs p s c) =
     concat (map (\<lambda>child. (FractalNode t d cs p s c, child) # edges child) cs)"

section \<open>The same code on a store of objects\<close>

text \<open>
  In the definitions above a task is a value, so that nothing can change it. To state
  that the code leaves the objects it is given as they are, the tree builder and the
  advisor are embedded a second time, over a store: every object (task, node or stub)
  lives at an address, a task refers to its subtasks and a node to its task and children
  by address, and every assignment of the source is an update of the store at the address
  of its target. Any object may carry a property \<^verbatim>\<open>position\<close> (the tasks of the store do),
  so \<^verbatim>\<open>child.position = ...\<close> is defined whatever \<open>child\<close> refers to. Recursion over the
  store need not end (an object may be its own child), hence the fuel; the result \<open>None\<close>
  is a \<^verbatim>\<open>TypeError\<close>, an object of the wrong kind, or fuel run out. The field
  \<^verbatim>\<open>this.root\<close> is not in the store: it is the address that \<open>st_createFractalTree\<close>
  returns.
\<close>

type_synonym addr = nat

record task_fields =
  tf_id :: string
  tf_title :: string
  tf_description :: "string option"
  tf_status :: "string option"
  tf_subtasks :: "addr list option"
  tf_dependencies :: "string list option"
  tf_complexity :: "real option"

record node_fields =
  nf_task :: addr
  nf_depth :: nat
  nf_children :: "addr list"
  nf_size :: real
  nf_complexity :: real

datatype kind = TaskObj task_fields | NodeObj node_fields | StubObj subtask

record obj =
  obj_kind :: kind
  obj_position :: "position option"

record store =
  objs :: "addr \<rightharpoonup> obj"
  lim :: addr

definition alloc :: "store \<Rightarrow> obj \<Rightarrow> addr \<times> store" where
  "alloc s ob = (lim s, s\<lparr>objs := (objs s)(lim s \<mapsto> ob), lim := lim s + 1\<rparr>)"

definition get_task :: "store \<Rightarrow> addr \<Rightarrow> task_fields option" where
  "get_task s a =
     (case objs s a of
        Some ob \<Rightarrow> (case obj_kind ob of TaskObj tk \<Rightarrow> Some tk | _ \<Rightarrow> None)
      | None \<Rightarrow> None)"

definition get_node :: "store \<Rightarrow> addr \<Rightarrow> node_fields option" where
  "get_node s a =
     (case objs s a of
        Some ob \<Rightarrow> (case obj_kind ob of NodeObj nd \<Rightarrow> Some nd | _ \<Rightarrow> None)
      | None \<Rightarrow> None)"

definition get_position :: "store \<Rightarrow> addr \<Rightarrow> position option" where
  "get_position s a = (case objs s a of Some ob \<Rightarrow> obj_position ob | None \<Rightarrow> None)"

definition set_position :: "store \<Rightarrow> addr \<Rightarrow> position \<Rightarrow> store option" where
  "set_position s a p =
     (case objs s a of
        Some ob \<Rightarrow> Some (s\<lparr>objs := (objs s)(a \<mapsto> ob\<lparr>obj_position := Some p\<rparr>)\<rparr>)
      | None \<Rightarrow> None)"

definition push_child :: "store \<Rightarrow> addr \<Rightarrow> addr \<Rightarrow> store option" where
  "push_child s a child =
     (case objs s a of
        Some ob \<Rightarrow>
          (case obj_kind ob of
             NodeObj nd \<Rightarrow>
               Some (s\<lparr>objs := (objs s)(a \<mapsto>
                        ob\<lparr>obj_kind := NodeObj (nd\<lparr>nf_children := nf_children nd @ [child]\<rparr>)\<rparr>)\<rparr>)
           | _ \<Rightarrow> None)
      | None \<Rightarrow> None)"

definition st_calculateComplexity :: "task_fields \<Rightarrow> real" where
  "st_calculateComplexity task =
     (let score = 1;
          score = (case tf_description task of
                     Some d \<Rightarrow> if d \<noteq> [] then score + min 5 (real (length d) / 100) else score
                   | None \<Rightarrow> score);
          score = (case tf_subtasks task of
                     Some subs \<Rightarrow> score + real (length subs)
                   | None \<Rightarrow> score)
      in min 10 score)"

definition st_new_FractalNode :: "store \<Rightarrow> addr \<Rightarrow> nat \<Rightarrow> (addr \<times> store) option" where
  "st_new_FractalNode s task depth =
     do {
       tk \<leftarrow> get_task s task;
       Some (alloc s \<lparr>obj_kind = NodeObj \<lparr>nf_task = task, nf_depth = depth, nf_children = [],
                                          nf_size = 1.0, nf_complexity = st_calculateComplexity tk\<rparr>,
                      obj_position = Some \<lparr>pos_x = 0, pos_y = 0, pos_z = 0\<rparr>\<rparr>)
     }"

fun st_updateLayout :: "nat \<Rightarrow> store \<Rightarrow> addr \<Rightarrow> store option"
  and st_forEach_child :: "nat \<Rightarrow> store \<Rightarrow> addr \<Rightarrow> real \<Rightarrow> real \<Rightarrow> nat \<Rightarrow> addr list \<Rightarrow> store option"
where
  "st_updateLayout 0 s this = None"
| "st_updateLayout (Suc fuel) s this =
     do {
       nd \<leftarrow> get_node s this;
       let angleStep = (2 * pi) / real (length (nf_children nd));
           radius = max 0.5 (real (length (nf_children nd)) * 0.2)
       in st_forEach_child fuel s this angleStep radius 0 (nf_children nd)
     }"
| "st_forEach_child fuel s this angleStep radius index [] = Some s"
| "st_forEach_child fuel s this angleStep radius index (child # rest) =
     do {
       p \<leftarrow> get_position s this;
       let angle = angleStep * real index;
       s \<leftarrow> set_position s child
              \<lparr>pos_x = pos_x p + cos angle * radius,
               pos_y = pos_y p - 0.5,
               pos_z = pos_z p + sin angle * radius\<rparr>;
       s \<leftarrow> st_updateLayout fuel s child;
       st_forEach_child fuel s this angleStep radius (index + 1) rest
     }"

definition st_addChild :: "nat \<Rightarrow> store \<Rightarrow> addr \<Rightarrow> addr \<Rightarrow> store option" where
  "st_addChild fuel s this child =
     do {
       s \<leftarrow> push_child s this child;
       st_updateLayout fuel s this
     }"

fun st_buildTree :: "nat \<Rightarrow> FractalAlgorithm \<Rightarrow> store \<Rightarrow> addr \<Rightarrow> nat \<Rightarrow> (addr \<times> store) option"
  and st_forEach_subtask :: "nat \<Rightarrow> FractalAlgorithm \<Rightarrow> store \<Rightarrow> addr \<Rightarrow> nat \<Rightarrow> addr list \<Rightarrow> store option"
where
  "st_buildTree 0 this s task depth = None"
| "st_buildTree (Suc fuel) this s task depth =
     do {
       (node, s) \<leftarrow> st_new_FractalNode s task depth;
       tk \<leftarrow> get_task s task;
       case tf_subtasks tk of
         Some subs \<Rightarrow>
           if depth < maxDepth this
           then do { s \<leftarrow> st_forEach_subtask fuel this s node depth subs; Some (node, s) }
           else Some (node, s)
       | None \<Rightarrow> Some (node, s)
     }"
| "st_forEach_subtask fuel this s node depth [] = Some s"
| "st_forEach_subtask fuel this s node depth (subtask # rest) =
     do {
       (childNode, s) \<leftarrow> st_buildTree fuel this s subtask (depth + 1);
       s \<leftarrow> st_addChild fuel s node childNode;
       st_forEach_subtask fuel this s node depth rest
     }"

definition st_createFractalTree :: "nat \<Rightarrow> FractalAlgorithm \<Rightarrow> store \<Rightarrow> addr \<Rightarrow> (addr \<times> store) option" where
  "st_createFractalTree fuel this s task =
     do {
       (r, s) \<leftarrow> st_buildTree fuel this s task 0;
       s \<leftarrow> set_position s r \<lparr>pos_x = 0, pos_y = 2, pos_z = 0\<rparr>;
       s \<leftarrow> st_updateLayout fuel s r;
       Some (r, s)
     }"

fun st_analyzeComplexity :: "nat \<Rightarrow> store \<Rightarrow> addr \<Rightarrow> real option"
  and st_forEach_analyze :: "nat \<Rightarrow> store \<Rightarrow> real \<Rightarrow> addr list \<Rightarrow> real option"
where
  "st_analyzeComplexity 0 s task = None"
| "st_analyzeComplexity (Suc fuel) s task =
     do {
       tk \<leftarrow> get_task s task;
       let score = 1;
       let score = (case tf_description tk of
                      Some d \<Rightarrow> if d \<noteq> [] then score + analyzeTextComplexity d else score
                    | None \<Rightarrow> score);
       score \<leftarrow> (case tf_subtasks tk of
                   Some subs \<Rightarrow> st_forEach_analyze fuel s (score + real (length subs)) subs
                 | None \<Rightarrow> Some score);
       let score = (case tf_dependencies tk of
                      Some deps \<Rightarrow> score + real (length deps) * 0.5
                    | None \<Rightarrow> score);
       Some (min 10 score)
     }"
| "st_forEach_analyze fuel s score [] = Some score"
| "st_forEach_analyze fuel s score (subtask # rest) =
     do {
       c \<leftarrow> st_analyzeComplexity fuel s subtask;
       st_forEach_analyze fuel s (score + c * 0.5) rest
     }"

definition task_view :: "task_fields \<Rightarrow> Task" where
  "task_view tk =
     Task (tf_id tk) (tf_title tk) (tf_description tk) (tf_status tk) None
       (tf_dependencies tk) (tf_complexity tk)"

fun alloc_all :: "store \<Rightarrow> obj list \<Rightarrow> addr list \<times> store" where
  "alloc_all s [] = ([], s)"
| "alloc_all s (ob # rest) =
     (let (a, s) = alloc s ob; (as, s) = alloc_all s rest in (a # as, s))"

definition st_suggestDecomposition ::
  "nat \<Rightarrow> (nat \<Rightarrow> host) \<Rightarrow> store \<Rightarrow> addr \<Rightarrow> (addr list \<times> store) option" where
  "st_suggestDecomposition fuel env s task =
     do {
       tk \<leftarrow> get_task s task;
       complexity \<leftarrow> st_analyzeComplexity fuel s task;
       let patterns = identifyPatterns (task_view tk);
       subtasks \<leftarrow>
         (if ''core-components'' \<in> set patterns
          then Some [createSubtask (env 0) (task_view tk) ''Research & Planning'' 0.2,
                     createSubtask (env 1) (task_view tk) ''Core Implementation'' 0.4,
                     createSubtask (env 2) (task_view tk) ''Testing & Validation'' 0.2,
                     createSubtask (env 3) (task_view tk) ''Documentation'' 0.2]
          else if ''feature-breakdown'' \<in> set patterns
          then (case tf_description tk of
                  None \<Rightarrow> None
                | Some description \<Rightarrow>
                    (let features = extractFeatures description
                     in Some (map (\<lambda>k. createSubtask (env k) (task_view tk) (features ! k)
                                          (1.0 / real (length features)))
                                  [0..<length features])))
          else (let numSubtasks = max 2 (min 5 \<lceil>complexity / 2\<rceil>)
                in Some (map (\<lambda>i. createSubtask (env i) (task_view tk)
                                      (''Phase '' @ digits_of (i + 1))
                                      (1.0 / real_of_int numSubtasks))
                             [0..<nat numSubtasks])));
       Some (alloc_all s (map (\<lambda>st. \<lparr>obj_kind = StubObj st, obj_position = None\<rparr>) subtasks))
     }"

section \<open>Auxiliary notions for the proofs\<close>

text \<open>
  None of the following is in the source. \<open>all_nodes P\<close> says that \<open>P\<close> holds of every
  node of a tree. \<open>unplace\<close> forgets every position; \<open>attach\<close> is the tree
  \<^verbatim>\<open>_buildTree\<close> would build if \<^verbatim>\<open>addChild\<close> only pushed the child: the proofs show
  that the built tree, positions forgotten, is that tree.
\<close>

fun all_nodes :: "(FractalNode \<Rightarrow> bool) \<Rightarrow> FractalNode \<Rightarrow> bool" where
  "all_nodes P (FractalNode t d cs p s c) =
     (P (FractalNode t d cs p s c) \<and> (\<forall>ch \<in> set cs. all_nodes P ch))"

definition origin :: position where
  "origin = \<lparr>pos_x = 0, pos_y = 0, pos_z = 0\<rparr>"

fun unplace :: "FractalNode \<Rightarrow> FractalNode" where
  "unplace (FractalNode t d cs p s c) = FractalNode t d (map unplace cs) origin s c"

fun attach :: "FractalAlgorithm \<Rightarrow> Task \<Rightarrow> nat \<Rightarrow> FractalNode" where
  "attach this task depth =
     FractalNode task depth
       (case task_subtasks task of
          Some subs \<Rightarrow>
            if depth < maxDepth this then map (\<lambda>s. attach this s (depth + 1)) subs else []
        | None \<Rightarrow> [])
       origin 1 (calculateComplexity task)"

declare attach.simps [simp del]

text \<open>Where \<^verbatim>\<open>updateLayout\<close> puts child \<open>i\<close> of \<open>n\<close> children of a node at \<open>p\<close>.\<close>

definition ring_position :: "position \<Rightarrow> nat \<Rightarrow> nat \<Rightarrow> position" where
  "ring_position p n i =
     \<lparr>pos_x = pos_x p + cos (real i * (2 * pi / real n)) * max 0.5 (real n * 0.2),
      pos_y = pos_y p - 0.5,
      pos_z = pos_z p + sin (real i * (2 * pi / real n)) * max 0.5 (real n * 0.2)\<rparr>"

definition placed :: "FractalNode \<Rightarrow> bool" where
  "placed n =
     (\<forall>i < length (node_children n).
        node_position (node_children n ! i)
          = ring_position (node_position n) (length (node_children n)) i)"

definition depth_rule :: "nat \<Rightarrow> FractalNode \<Rightarrow> bool" where
  "depth_rule m n =
     (node_depth n \<le> m
      \<and> (\<forall>c \<in> set (node_children n). node_depth c = node_depth n + 1)
      \<and> (node_depth n = m \<longrightarrow> node_children n = [])
      \<and> map node_task (node_children n) =
          (if node_depth n < m
           then (case task_subtasks (node_task n) of Some subs \<Rightarrow> subs | None \<Rightarrow> [])
           else []))"

text \<open>A lower-case ASCII letter.\<close>

definition lower_letter :: "char \<Rightarrow> bool" where
  "lower_letter k = (97 \<le> (of_char k :: nat) \<and> (of_char k :: nat) \<le> 122)"

text \<open>
  For the store: no object beyond the limit; every object of the first store is the same
  in the second; and the invariant of a call that started in \<open>s0\<close>: the objects of
  \<open>s0\<close> are untouched and the children of a node made since are nodes made since.
\<close>

definition store_ok :: "store \<Rightarrow> bool" where
  "store_ok s = (\<forall>a. lim s \<le> a \<longrightarrow> objs s a = None)"

definition unchanged :: "store \<Rightarrow> store \<Rightarrow> bool" where
  "unchanged s s' = (\<forall>a. objs s a \<noteq> None \<longrightarrow> objs s' a = objs s a)"

definition frame_inv :: "store \<Rightarrow> store \<Rightarrow> bool" where
  "frame_inv s0 s =
     (lim s0 \<le> lim s
      \<and> (\<forall>a < lim s0. objs s a = objs s0 a)
      \<and> (\<forall>a nd. lim s0 \<le> a \<longrightarrow> get_node s a = Some nd \<longrightarrow>
             (\<forall>c \<in> set (nf_children nd). lim s0 \<le> c)))"

text \<open>
  The number of tasks in a task; the store holding a task, subtasks included, at an
  address; the nodes made since the limit \<open>L\<close> being nodes with a position whose
  children were made after them; and what the proof of termination shows of
  \<open>st_buildTree\<close> for one task.
\<close>

fun tsize :: "Task \<Rightarrow> nat" where
  "tsize task =
     (case task_subtasks task of
        Some subs \<Rightarrow> 1 + sum_list (map tsize subs)
      | None \<Rightarrow> 1)"

declare tsize.simps [simp del]

fun task_at :: "store \<Rightarrow> addr \<Rightarrow> Task \<Rightarrow> bool" where
  "task_at s a task =
     (case get_task s a of
        None \<Rightarrow> False
      | Some tk \<Rightarrow>
          tf_id tk = task_id task \<and> tf_title tk = task_title task
          \<and> tf_description tk = task_description task \<and> tf_status tk = task_status task
          \<and> tf_dependencies tk = task_dependencies task
          \<and> tf_complexity tk = task_complexity task
          \<and> (case task_subtasks task of
                None \<Rightarrow> tf_subtasks tk = None
              | Some subs \<Rightarrow>
                  (case tf_subtasks tk of
                     None \<Rightarrow> False
                   | Some as \<Rightarrow> list_all2 (\<lambda>a sub. task_at s a sub) as subs)))"

declare task_at.simps [simp del]

definition nodes_ok :: "addr \<Rightarrow> store \<Rightarrow> bool" where
  "nodes_ok L s =
     (\<forall>a. L \<le> a \<and> a < lim s \<longrightarrow>
        (\<exists>nd. get_node s a = Some nd \<and> get_position s a \<noteq> None
              \<and> (\<forall>c \<in> set (nf_children nd). a < c \<and> c < lim s)))"

definition builds :: "store \<Rightarrow> FractalAlgorithm \<Rightarrow> Task \<Rightarrow> nat \<Rightarrow> bool" where
  "builds s0 this task d =
     (\<forall>s t fuel. task_at s0 t task \<longrightarrow> frame_inv s0 s \<longrightarrow> nodes_ok (lim s0) s
        \<longrightarrow> tsize task + 1 \<le> fuel
        \<longrightarrow> (\<exists>s'. st_buildTree fuel this s t d = Some (lim s, s') \<and> frame_inv s0 s'
                 \<and> nodes_ok (lim s0) s' \<and> lim s < lim s' \<and> lim s' \<le> lim s + tsize task))"

section \<open>The claims' own words\<close>

text \<open>
  These definitions follow the wording of the claims, not the source; the theorems
  compare them with the source.

  A description contains a keyword case-insensitively when, at some offset, its
  characters with \<^verbatim>\<open>A\<close>-\<^verbatim>\<open>Z\<close> lowered spell the keyword.
\<close>

definition contains_ci :: "string \<Rightarrow> string \<Rightarrow> bool" where
  "contains_ci s kw = (\<exists>i \<in> {0..length s}. matches_ci kw (drop i s))"

definition core_trigger :: "string \<Rightarrow> bool" where
  "core_trigger d =
     (contains_ci d ''implement'' \<or> contains_ci d ''develop'' \<or> contains_ci d ''create'')"

definition feature_trigger :: "string \<Rightarrow> bool" where
  "feature_trigger d = (contains_ci d ''feature'' \<or> contains_ci d ''functionality'')"

definition optimization_trigger :: "string \<Rightarrow> bool" where
  "optimization_trigger d = (contains_ci d ''improve'' \<or> contains_ci d ''optimize'')"

text \<open>
  The colour as the claim words it: the palette entry of the status, gray for any other
  status, each channel times the intensity and at most 255.
\<close>

definition claimed_palette :: "string option \<Rightarrow> real \<times> real \<times> real" where
  "claimed_palette st =
     (if st = Some ''In Progress'' then (79, 70, 229)
      else if st = Some ''Completed'' then (34, 197, 94)
      else if st = Some ''Blocked'' then (239, 68, 68)
      else (128, 128, 128))"

definition claimed_color :: "FractalNode \<Rightarrow> color" where
  "claimed_color node =
     (let (pr, pg, pb) = claimed_palette (task_status (node_task node));
          intensity = 0.5 + node_complexity node / 20
      in \<lparr>col_r = Num (min 255 (pr * intensity)),
          col_g = Num (min 255 (pg * intensity)),
          col_b = Num (min 255 (pb * intensity))\<rparr>)"

text \<open>The sum of JavaScript numbers: \<^verbatim>\<open>NaN\<close> absorbs.\<close>

fun js_plus :: "jsnum \<Rightarrow> jsnum \<Rightarrow> jsnum" where
  "js_plus (Num a) (Num b) = Num (a + b)"
| "js_plus _ _ = NaN"

definition js_sum :: "jsnum list \<Rightarrow> jsnum" where
  "js_sum xs = foldl js_plus (Num 0) xs"

section \<open>Example inputs\<close>

text \<open>
  The default task of the task store (\<^verbatim>\<open>TaskManager.defaultTasks\<close>), a task with three
  subtasks, and chains of nested tasks: \<open>example_chain k\<close> has \<open>k\<close> levels below it.
\<close>

definition demo_task :: Task where
  "demo_task =
     Task ''demo-1'' ''Welcome to FocusAR''
       (Some ''This is a demo task to help you get started with FocusAR Roadmapper. Try adding your own tasks!'')
       (Some ''Not Started'') None None None"

definition example_leaf :: "string \<Rightarrow> Task" where
  "example_leaf i = Task i ''Leaf'' None (Some ''Not Started'') None None None"

definition example_parent :: Task where
  "example_parent =
     Task ''p'' ''Parent'' None (Some ''In Progress'')
       (Some [example_leaf ''a'', example_leaf ''b'', example_leaf ''c'']) None None"

fun example_chain :: "nat \<Rightarrow> Task" where
  "example_chain 0 = Task ''0'' ''Level'' None (Some ''Not Started'') (Some []) None None"
| "example_chain (Suc k) =
     Task ''n'' ''Level'' None (Some ''Not Started'') (Some [example_chain k]) None None"

text \<open>
  The task that the form of the application creates when the description is left empty
  (\<^verbatim>\<open>showAddTaskModal\<close>), a task whose description has triggers of two groups, one
  with an optimization trigger only (these two carry a field \<^verbatim>\<open>complexity\<close>, 10 and
  3), a node whose task has a status outside the four, a task in progress with that
  task as its subtask, and a node whose task is blocked.
\<close>

definition form_task :: Task where
  "form_task = Task ''1745257280418'' ''Write report'' (Some []) (Some ''Not Started'') None None None"

definition export_task :: Task where
  "export_task =
     Task ''8'' ''Export'' (Some ''Develop the export FEATURE'') (Some ''In Progress'') None None
       (Some 10)"

definition tuning_task :: Task where
  "tuning_task =
     Task ''9'' ''Tuning'' (Some ''Optimize the renderer'') (Some ''In Progress'') None None
       (Some 3)"

definition cancelled_node :: FractalNode where
  "cancelled_node =
     FractalNode (Task ''3'' ''Old'' None (Some ''Cancelled'') None None None) 0 []
       \<lparr>pos_x = 0, pos_y = 2, pos_z = 0\<rparr> 1 1"

definition cancelled_parent :: Task where
  "cancelled_parent =
     Task ''2'' ''Release'' None (Some ''In Progress'')
       (Some [Task ''3'' ''Old'' None (Some ''Cancelled'') None None None]) None None"

definition blocked_node :: FractalNode where
  "blocked_node =
     FractalNode (Task ''4'' ''Stuck'' None (Some ''Blocked'') None None None) 0 []
       \<lparr>pos_x = 0, pos_y = 2, pos_z = 0\<rparr> 1 10"

text \<open>A host whose clock stands still and whose random numbers are \<open>1/2, 1/3, ...\<close>.\<close>

definition example_env :: "nat \<Rightarrow> host" where
  "example_env k =
     \<lparr>now = 1745257280418, random = 1 / real (k + 2), iso = ''2025-04-21T17:41:20.418Z''\<rparr>"

text \<open>
  A store with a task at address 0 whose subtasks are the tasks at 1 and 2, and the same
  task as a value.
\<close>

definition example_store :: store where
  "example_store =
     \<lparr>objs = map_of
        [(0, \<lparr>obj_kind = TaskObj \<lparr>tf_id = ''p'', tf_title = ''Parent'', tf_description = None,
                                    tf_status = Some ''In Progress'', tf_subtasks = Some [1, 2],
                                    tf_dependencies = None, tf_complexity = None\<rparr>,
               obj_position = Some \<lparr>pos_x = 0, pos_y = 0, pos_z = -1\<rparr>\<rparr>),
         (1, \<lparr>obj_kind = TaskObj \<lparr>tf_id = ''a'', tf_title = ''Leaf'', tf_description = None,
                                    tf_status = Some ''Not Started'', tf_subtasks = None,
                                    tf_dependencies = None, tf_complexity = None\<rparr>,
               obj_position = Some \<lparr>pos_x = 0, pos_y = 0, pos_z = -1\<rparr>\<rparr>),
         (2, \<lparr>obj_kind = TaskObj \<lparr>tf_id = ''b'', tf_title = ''Leaf'', tf_description = None,
                                    tf_status = Some ''Not Started'', tf_subtasks = None,
                                    tf_dependencies = None, tf_complexity = None\<rparr>,
               obj_position = Some \<lparr>pos_x = 0, pos_y = 0, pos_z = -1\<rparr>\<rparr>)],
      lim = 3\<rparr>"

text \<open>The example store with a node without children added at address 3.\<close>

definition leaf_node_store :: store where
  "leaf_node_store =
     snd (alloc example_store
       \<lparr>obj_kind = NodeObj \<lparr>nf_task = 1, nf_depth = 0, nf_children = [], nf_size = 1,
                             nf_complexity = 1\<rparr>,
        obj_position = Some \<lparr>pos_x = 0, pos_y = 2, pos_z = 0\<rparr>\<rparr>)"

definition example_pair :: Task where
  "example_pair =
     Task ''p'' ''Parent'' None (Some ''In Progress'')
       (Some [example_leaf ''a'', example_leaf ''b'']) None None"

section \<open>Complexity scores stay in range\<close>

lemma calculateComplexity_bounds:
  "1 \<le> calculateComplexity t \<and> calculateComplexity t \<le> 10"
  by (auto simp: calculateComplexity_def Let_def split: option.splits)

lemma analyzeTextComplexity_nonneg: "0 \<le> analyzeTextComplexity s"
  by (simp add: analyzeTextComplexity_def Let_def)

lemma analyzeTextComplexity_le: "analyzeTextComplexity s \<le> 5"
  by (simp add: analyzeTextComplexity_def Let_def)

lemma foldl_half_ge:
  "(\<And>x. x \<in> set xs \<Longrightarrow> 0 \<le> f x) \<Longrightarrow> (a::real) \<le> foldl (\<lambda>s x. s + f x * 0.5) a xs"
proof (induction xs arbitrary: a)
  case Nil
  then show ?case by simp
next
  case (Cons x xs)
  have "a \<le> a + f x * 0.5"
    using Cons.prems[of x] by simp
  also have "\<dots> \<le> foldl (\<lambda>s x. s + f x * 0.5) (a + f x * 0.5) xs"
    using Cons.IH[of "a + f x * 0.5"] Cons.prems by simp
  finally show ?case by simp
qed

lemma analyzeComplexity_bounds:
  "1 \<le> analyzeComplexity t \<and> analyzeComplexity t \<le> 10"
proof (induction t rule: analyzeComplexity.induct)
  case (1 task)
  have up: "analyzeComplexity task \<le> 10"
    by (subst analyzeComplexity.simps) (simp add: Let_def)
  have A: "1 \<le> (case task_description task of
                     Some d \<Rightarrow> if d \<noteq> [] then 1 + analyzeTextComplexity d else 1
                   | None \<Rightarrow> (1::real))" (is "1 \<le> ?s1")
    using analyzeTextComplexity_nonneg by (auto split: option.splits)
  have B: "1 \<le> (case task_subtasks task of
                     Some subs \<Rightarrow>
                       foldl (\<lambda>score subtask. score + analyzeComplexity subtask * 0.5)
                             (?s1 + real (length subs)) subs
                   | None \<Rightarrow> ?s1)" (is "1 \<le> ?s2")
  proof (cases "task_subtasks task")
    case None
    then show ?thesis using A by simp
  next
    case (Some subs)
    have "\<And>x. x \<in> set subs \<Longrightarrow> 0 \<le> analyzeComplexity x"
      using 1 Some by fastforce
    from foldl_half_ge[of subs analyzeComplexity, OF this, of "?s1 + real (length subs)"]
    show ?thesis using A Some by simp
  qed
  have C: "1 \<le> (case task_dependencies task of
                     Some deps \<Rightarrow> ?s2 + real (length deps) * 0.5
                   | None \<Rightarrow> ?s2)"
    using B by (auto split: option.splits)
  have "1 \<le> analyzeComplexity task"
    by (subst analyzeComplexity.simps) (use C in \<open>simp add: Let_def\<close>)
  with up show ?case by simp
qed

text \<open>
  Claim C1. For every task, however deep and wide, the score that \<^verbatim>\<open>FractalNode\<close>
  gives a node (\<open>calculateComplexity\<close>) and the score of \<open>analyzeComplexity\<close> are both
  between 1 and 10 inclusive. The source clamps from above only; the lower bound holds
  because the score starts at 1 and every summand (description length, number of
  subtasks, half of each subtask's score, half the number of dependencies) is not
  negative. The node built for the task stores that score.
\<close>

theorem complexity_in_range:
  "1 \<le> calculateComplexity t \<and> calculateComplexity t \<le> 10
   \<and> 1 \<le> analyzeComplexity t \<and> analyzeComplexity t \<le> 10
   \<and> node_complexity (new_FractalNode t d) = calculateComplexity t"
  using calculateComplexity_bounds[of t] analyzeComplexity_bounds[of t]
  by (simp add: new_FractalNode_def)

section \<open>Layout\<close>

lemma updateLayout_sel [simp]:
  "node_task (updateLayout n) = node_task n"
  "node_depth (updateLayout n) = node_depth n"
  "node_position (updateLayout n) = node_position n"
  "node_size (updateLayout n) = node_size n"
  "node_complexity (updateLayout n) = node_complexity n"
  by (cases n; simp add: Let_def)+

lemma length_forEach_child [simp]: "length (forEach_child p a rad k cs) = length cs"
proof (induction cs arbitrary: k)
  case Nil
  then show ?case by simp
next
  case (Cons c cs)
  then show ?case by (cases c) (simp add: Let_def)
qed

lemma forEach_child_nth:
  "i < length cs \<Longrightarrow>
   node_position (forEach_child p a rad k cs ! i) =
     \<lparr>pos_x = pos_x p + cos (a * real (k + i)) * rad, pos_y = pos_y p - 0.5,
      pos_z = pos_z p + sin (a * real (k + i)) * rad\<rparr>"
proof (induction cs arbitrary: k i)
  case Nil
  then show ?case by simp
next
  case (Cons c cs)
  show ?case
  proof (cases i)
    case 0
    then show ?thesis by (cases c) (simp add: Let_def)
  next
    case (Suc j)
    then show ?thesis
      using Cons.IH[of j "k + 1"] Cons.prems by (cases c) (simp add: Let_def)
  qed
qed

lemma children_updateLayout:
  "node_children (updateLayout n) =
     forEach_child (node_position n) (2 * pi / real (length (node_children n)))
       (max 0.5 (real (length (node_children n)) * 0.2)) 0 (node_children n)"
  by (cases n) (simp add: Let_def)

lemma placed_updateLayout: "placed (updateLayout n)"
  unfolding placed_def
  by (simp add: children_updateLayout forEach_child_nth ring_position_def mult.commute)

lemma all_nodes_iff: "all_nodes P n \<longleftrightarrow> (\<forall>m \<in> set (nodes n). P m)"
  by (induction n rule: nodes.induct) auto

lemma root_in_nodes: "n \<in> set (nodes n)"
  by (cases n) simp

lemma laid_out:
  "all_nodes placed (updateLayout n)"
  "\<forall>ch \<in> set (forEach_child p a rad k cs). all_nodes placed ch"
proof (induction n and p a rad k cs rule: updateLayout_forEach_child.induct)
  case (1 t d cs p s c)
  have "placed (updateLayout (FractalNode t d cs p s c))"
    by (rule placed_updateLayout)
  then show ?case using 1 by (simp add: Let_def)
next
  case (2 p angleStep radius index)
  then show ?case by simp
next
  case (3 p angleStep radius index t d cs q s c rest)
  then show ?case by (simp add: Let_def)
qed

lemma createFractalTree_is_layout:
  "\<exists>t0. fst (createFractalTree this task) = updateLayout t0"
  unfolding createFractalTree_def Let_def fst_conv by (rule exI) (rule refl)

lemma ring_position_on_circle:
  "(pos_x (ring_position p n i) - pos_x p)\<^sup>2 + (pos_z (ring_position p n i) - pos_z p)\<^sup>2
     = (max 0.5 (real n * 0.2))\<^sup>2"
proof -
  have "(cos a * rad)\<^sup>2 + (sin a * rad)\<^sup>2 = rad\<^sup>2" for a rad :: real
  proof -
    have "(cos a * rad)\<^sup>2 + (sin a * rad)\<^sup>2 = ((cos a)\<^sup>2 + (sin a)\<^sup>2) * rad\<^sup>2"
      by (simp only: power_mult_distrib distrib_right)
    then show ?thesis by (simp only: sin_cos_squared_add2 mult_1)
  qed
  then show ?thesis
    by (simp add: ring_position_def)
qed

text \<open>
  Claim C2. After \<^verbatim>\<open>updateLayout\<close> has run on a tree (as it has on every tree that
  \<^verbatim>\<open>createFractalTree\<close> returns), every node with \<open>n \<ge> 1\<close> children has its child
  \<open>i\<close> (counted from 0, in the order of the children) at
  \<open>(x + cos (i \<cdot> 2\<pi>/n) \<cdot> r, y - 0.5, z + sin (i \<cdot> 2\<pi>/n) \<cdot> r)\<close>, where \<open>(x, y, z)\<close> is the
  position of the node and \<open>r = max 0.5 (n \<cdot> 0.2)\<close>; so the offset of the child in the
  \<open>x\<close>-\<open>z\<close> plane lies on the circle of radius \<open>r\<close>. Numbers are reals.
\<close>

theorem children_on_ring:
  assumes "tree = updateLayout t0 \<or> tree = fst (createFractalTree this task)"
    and "node \<in> set (nodes tree)"
    and "i < length (node_children node)"
  shows "let n = length (node_children node);
             rad = max 0.5 (real n * 0.2);
             p = node_position node;
             q = node_position (node_children node ! i)
         in q = \<lparr>pos_x = pos_x p + cos (real i * (2 * pi / real n)) * rad,
                 pos_y = pos_y p - 0.5,
                 pos_z = pos_z p + sin (real i * (2 * pi / real n)) * rad\<rparr>
            \<and> (pos_x q - pos_x p)\<^sup>2 + (pos_z q - pos_z p)\<^sup>2 = rad\<^sup>2"
proof -
  obtain t1 where "tree = updateLayout t1"
    using assms(1) createFractalTree_is_layout[of this task] by auto
  then have "all_nodes placed tree"
    by (simp add: laid_out(1))
  then have "placed node"
    using assms(2) by (simp add: all_nodes_iff)
  then have q: "node_position (node_children node ! i)
                  = ring_position (node_position node) (length (node_children node)) i"
    using assms(3) by (simp add: placed_def)
  show ?thesis
    unfolding Let_def q
    using ring_position_on_circle[of "node_position node" "length (node_children node)" i]
    by (simp add: ring_position_def)
qed

lemma example_parent_tree:
  "fst (createFractalTree new_FractalAlgorithm example_parent) =
     FractalNode example_parent 0
       [FractalNode (example_leaf ''a'') 1 []
          \<lparr>pos_x = 0.6, pos_y = 1.5, pos_z = 0\<rparr> 1 1,
        FractalNode (example_leaf ''b'') 1 []
          \<lparr>pos_x = cos (2 * pi / 3) * 0.6, pos_y = 1.5, pos_z = sin (2 * pi / 3) * 0.6\<rparr> 1 1,
        FractalNode (example_leaf ''c'') 1 []
          \<lparr>pos_x = cos (2 * (2 * pi / 3)) * 0.6, pos_y = 1.5,
           pos_z = sin (2 * (2 * pi / 3)) * 0.6\<rparr> 1 1]
       \<lparr>pos_x = 0, pos_y = 2, pos_z = 0\<rparr> 1 4"
  by (simp add: createFractalTree_def example_parent_def example_leaf_def buildTree.simps
        addChild_def new_FractalNode_def Let_def calculateComplexity_def
        new_FractalAlgorithm_def)

theorem children_on_ring_witness:
  "node_position (node_children (fst (createFractalTree new_FractalAlgorithm example_parent)) ! 1)
     = \<lparr>pos_x = 0 + cos (1 * (2 * pi / 3)) * 0.6, pos_y = 2 - 0.5,
        pos_z = 0 + sin (1 * (2 * pi / 3)) * 0.6\<rparr>"
proof -
  let ?tree = "fst (createFractalTree new_FractalAlgorithm example_parent)"
  have h1: "?tree = updateLayout ?tree \<or> ?tree = fst (createFractalTree new_FractalAlgorithm example_parent)"
    by simp
  have h2: "?tree \<in> set (nodes ?tree)"
    by (rule root_in_nodes)
  have h3: "1 < length (node_children ?tree)"
    by (simp add: example_parent_tree)
  show ?thesis
    using children_on_ring[OF h1 h2 h3]
    by (simp add: example_parent_tree Let_def)
qed

text \<open>
  Claim C8. \<^verbatim>\<open>updateLayout\<close> on a node with no children changes nothing: the node and
  with it every position is as before. The loop over the children runs zero times
  whatever value the division by the number of children gave (\<^verbatim>\<open>Infinity\<close> in the
  source, where dividing by zero raises nothing), so no fault arises. On the store, where
  a fault is the result \<open>None\<close>, the call returns the store it was given.
\<close>

theorem updateLayout_no_children:
  "(node_children n = [] \<longrightarrow>
      updateLayout n = n
      \<and> (\<forall>p angleStep radius index. forEach_child p angleStep radius index (node_children n) = []))
   \<and> (get_node s a = Some nd \<and> nf_children nd = [] \<longrightarrow> st_updateLayout (Suc fuel) s a = Some s)"
  by (cases n) (simp add: Let_def)

theorem updateLayout_no_children_witness:
  "node_children (new_FractalNode demo_task 0) = []
   \<and> updateLayout (new_FractalNode demo_task 0) = new_FractalNode demo_task 0
   \<and> (\<exists>nd. get_node leaf_node_store 3 = Some nd \<and> nf_children nd = [])
   \<and> st_updateLayout 1 leaf_node_store 3 = Some leaf_node_store"
proof -
  have a: "node_children (new_FractalNode demo_task 0) = []"
    by (simp add: new_FractalNode_def)
  let ?nd = "\<lparr>nf_task = 1, nf_depth = 0, nf_children = [], nf_size = 1, nf_complexity = 1\<rparr>"
  have b: "get_node leaf_node_store 3 = Some ?nd \<and> nf_children ?nd = []"
    by (simp add: leaf_node_store_def alloc_def example_store_def get_node_def)
  show ?thesis
    using updateLayout_no_children[of "new_FractalNode demo_task 0" leaf_node_store 3 ?nd 0] a b
    by simp
qed

section \<open>Depth\<close>

lemma unplace_layout:
  "unplace (updateLayout n) = unplace n"
  "map unplace (forEach_child p a rad k cs) = map unplace cs"
  by (induction n and p a rad k cs rule: updateLayout_forEach_child.induct)
     (simp_all add: Let_def)

lemma unplace_addChild:
  "unplace (addChild n ch) =
     FractalNode (node_task n) (node_depth n) (map unplace (node_children n) @ [unplace ch])
       origin (node_size n) (node_complexity n)"
  by (simp add: addChild_def unplace_layout)

lemma unplace_sel [simp]:
  "node_task (unplace n) = node_task n"
  "node_depth (unplace n) = node_depth n"
  "node_size (unplace n) = node_size n"
  "node_complexity (unplace n) = node_complexity n"
  by (cases n; simp)+

lemma addChild_sel [simp]:
  "node_task (addChild n ch) = node_task n"
  "node_depth (addChild n ch) = node_depth n"
  "node_position (addChild n ch) = node_position n"
  "node_size (addChild n ch) = node_size n"
  "node_complexity (addChild n ch) = node_complexity n"
  by (simp_all add: addChild_def)

lemma unplace_children_addChild:
  "map unplace (node_children (addChild n ch)) = map unplace (node_children n) @ [unplace ch]"
proof -
  have "map unplace (node_children (addChild n ch)) = node_children (unplace (addChild n ch))"
    by (cases "addChild n ch") simp
  then show ?thesis
    by (simp add: unplace_addChild)
qed

lemma unplace_foldl_addChild:
  "unplace (foldl (\<lambda>node subtask. addChild node (f subtask)) n subs) =
     FractalNode (node_task n) (node_depth n)
       (map unplace (node_children n) @ map (\<lambda>s. unplace (f s)) subs)
       origin (node_size n) (node_complexity n)"
proof (induction subs arbitrary: n)
  case Nil
  then show ?case by (cases n) simp
next
  case (Cons s subs)
  show ?case
    by (simp add: Cons.IH unplace_children_addChild)
qed

lemma unplace_buildTree: "unplace (buildTree this task depth) = attach this task depth"
proof (induction this task depth rule: buildTree.induct)
  case (1 this task depth)
  show ?case
  proof (cases "task_subtasks task")
    case None
    then show ?thesis
      by (simp add: buildTree.simps[of this task] attach.simps[of this task]
            new_FractalNode_def origin_def)
  next
    case (Some subs)
    show ?thesis
    proof (cases "depth < maxDepth this")
      case False
      then show ?thesis using Some
        by (simp add: buildTree.simps[of this task] attach.simps[of this task]
              new_FractalNode_def origin_def)
    next
      case True
      have IH: "\<And>s. s \<in> set subs \<Longrightarrow>
                  unplace (buildTree this s (depth + 1)) = attach this s (depth + 1)"
        using 1 Some True by simp
      show ?thesis using Some True IH
        by (simp add: buildTree.simps[of this task] attach.simps[of this task]
              unplace_foldl_addChild new_FractalNode_def origin_def)
    qed
  qed
qed

lemma unplace_createFractalTree:
  "unplace (fst (createFractalTree this task)) = attach this task 0"
proof -
  have "unplace (fst (createFractalTree this task)) = unplace (buildTree this task 0)"
    by (cases "buildTree this task 0") (simp add: createFractalTree_def Let_def unplace_layout)
  then show ?thesis by (simp add: unplace_buildTree)
qed

lemma attach_sel [simp]:
  "node_task (attach this task d) = task"
  "node_depth (attach this task d) = d"
  by (simp_all add: attach.simps[of this task d])

lemma children_attach:
  "node_children (attach this task d) =
     (case task_subtasks task of
        Some subs \<Rightarrow> if d < maxDepth this then map (\<lambda>s. attach this s (d + 1)) subs else []
      | None \<Rightarrow> [])"
  by (subst attach.simps) simp

lemma depth_rule_attach:
  "d \<le> maxDepth this \<Longrightarrow> depth_rule (maxDepth this) (attach this task d)"
  unfolding depth_rule_def
  by (auto simp: children_attach o_def split: option.splits)

lemma all_nodes_attach:
  "d \<le> maxDepth this \<Longrightarrow> all_nodes (depth_rule (maxDepth this)) (attach this task d)"
proof (induction this task d rule: attach.induct)
  case (1 this task depth)
  have here: "depth_rule (maxDepth this) (attach this task depth)"
    using 1(2) by (rule depth_rule_attach)
  have kids: "all_nodes (depth_rule (maxDepth this)) ch"
    if "ch \<in> set (node_children (attach this task depth))" for ch
  proof -
    from that obtain subs s where "task_subtasks task = Some subs" "depth < maxDepth this"
      "s \<in> set subs" "ch = attach this s (depth + 1)"
      by (cases "task_subtasks task"; cases "depth < maxDepth this")
         (auto simp: children_attach)
    then show ?thesis using 1(1)[of subs s] by simp
  qed
  show ?case
    using here kids by (cases "attach this task depth") auto
qed

lemma depth_rule_unplace: "depth_rule m (unplace n) = depth_rule m n"
  by (cases n) (simp add: depth_rule_def o_def)

lemma all_nodes_unplace:
  "all_nodes (depth_rule m) (unplace n) = all_nodes (depth_rule m) n"
proof (induction n rule: unplace.induct)
  case (1 t d cs p s c)
  have "depth_rule m (unplace (FractalNode t d cs p s c)) = depth_rule m (FractalNode t d cs p s c)"
    by (rule depth_rule_unplace)
  then show ?case using 1 by simp
qed

text \<open>
  Claim C3. In the tree that \<^verbatim>\<open>createFractalTree\<close> returns, whatever \<open>maxDepth\<close> is
  configured (5 by default): the root has depth 0, every child has the depth of its
  parent plus 1, no node is deeper than \<open>maxDepth\<close>, and a node at depth \<open>maxDepth\<close> has
  no children. The children of a node above that depth are the nodes of the subtasks of
  its task, in order; the task of a node at depth \<open>maxDepth\<close> is the source task with
  its subtasks still in it, and none of them is in the tree.
\<close>

theorem depth_bound:
  assumes "n \<in> set (nodes (fst (createFractalTree this task)))"
  shows "node_depth n \<le> maxDepth this
      \<and> (\<forall>c \<in> set (node_children n). node_depth c = node_depth n + 1)
      \<and> (node_depth n = maxDepth this \<longrightarrow> node_children n = [])
      \<and> map node_task (node_children n) =
          (if node_depth n < maxDepth this
           then (case task_subtasks (node_task n) of Some subs \<Rightarrow> subs | None \<Rightarrow> [])
           else [])
      \<and> node_depth (fst (createFractalTree this task)) = 0
      \<and> node_task (fst (createFractalTree this task)) = task"
proof -
  have "all_nodes (depth_rule (maxDepth this)) (attach this task 0)"
    by (rule all_nodes_attach) simp
  then have "all_nodes (depth_rule (maxDepth this)) (fst (createFractalTree this task))"
    by (simp flip: unplace_createFractalTree add: all_nodes_unplace)
  then have "depth_rule (maxDepth this) n"
    using assms by (simp add: all_nodes_iff)
  moreover have "node_depth (unplace (fst (createFractalTree this task))) = 0"
    "node_task (unplace (fst (createFractalTree this task))) = task"
    unfolding unplace_createFractalTree by simp_all
  ultimately show ?thesis by (simp add: depth_rule_def)
qed

lemma example_chain_tree:
  "nodes (fst (createFractalTree new_FractalAlgorithm (example_chain 6))) ! 5 =
     FractalNode (example_chain (Suc 0)) 5 [] \<lparr>pos_x = 2.5, pos_y = -0.5, pos_z = 0\<rparr> 1 2"
  "length (nodes (fst (createFractalTree new_FractalAlgorithm (example_chain 6)))) = 6"
  by (simp_all add: createFractalTree_def buildTree.simps addChild_def new_FractalNode_def
        Let_def calculateComplexity_def new_FractalAlgorithm_def eval_nat_numeral)

theorem depth_bound_witness:
  "node_depth (nodes (fst (createFractalTree new_FractalAlgorithm (example_chain 6))) ! 5) = 5
   \<and> node_children (nodes (fst (createFractalTree new_FractalAlgorithm (example_chain 6))) ! 5) = []
   \<and> task_subtasks (node_task (nodes (fst (createFractalTree new_FractalAlgorithm (example_chain 6))) ! 5))
       = Some [example_chain 0]"
proof -
  let ?ns = "nodes (fst (createFractalTree new_FractalAlgorithm (example_chain 6)))"
  have "?ns ! 5 \<in> set ?ns"
    by (rule nth_mem) (simp add: example_chain_tree(2))
  from depth_bound[OF this] show ?thesis
    unfolding example_chain_tree(1) by simp
qed


section \<open>Determinism\<close>

lemma buildTree_maxDepth:
  "maxDepth a = maxDepth b \<Longrightarrow> buildTree a task d = buildTree b task d"
proof (induction a task d rule: buildTree.induct)
  case (1 this task depth)
  show ?case
  proof (cases "task_subtasks task")
    case None
    then show ?thesis by (simp add: buildTree.simps[of _ task])
  next
    case (Some subs)
    show ?thesis
    proof (cases "depth < maxDepth this")
      case False
      then show ?thesis using Some 1(2) by (simp add: buildTree.simps[of _ task])
    next
      case True
      have "\<And>s. s \<in> set subs \<Longrightarrow> buildTree this s (depth + 1) = buildTree b s (depth + 1)"
        using 1 Some True by simp
      then have "foldl (\<lambda>node subtask. addChild node (buildTree this subtask (depth + 1))) n0 subs
               = foldl (\<lambda>node subtask. addChild node (buildTree b subtask (depth + 1))) n0 subs"
        for n0
        by (intro foldl_cong) simp_all
      then show ?thesis using Some True 1(2) by (simp add: buildTree.simps[of _ task])
    qed
  qed
qed

lemma maxDepth_createFractalTree [simp]:
  "maxDepth (snd (createFractalTree this task)) = maxDepth this"
  by (simp add: createFractalTree_def Let_def)

text \<open>
  Claim C7. \<^verbatim>\<open>createFractalTree\<close> is deterministic: the tree it returns (depth,
  complexity, position and size of every node) depends on the task and on \<open>maxDepth\<close>
  only, not on the other fields of the algorithm object nor on the tree an earlier call
  left in \<^verbatim>\<open>this.root\<close>. So two algorithm objects with the same \<open>maxDepth\<close> return
  equal trees for equal tasks, and a second call on the same object returns the tree
  of the first.
\<close>

theorem createFractalTree_deterministic:
  assumes "maxDepth a = maxDepth b"
  shows "fst (createFractalTree a task) = fst (createFractalTree b task)
       \<and> fst (createFractalTree (snd (createFractalTree a task)) task) = fst (createFractalTree a task)
       \<and> root (snd (createFractalTree a task)) = Some (fst (createFractalTree a task))"
proof -
  have eq: "fst (createFractalTree x task) = fst (createFractalTree y task)"
    if "maxDepth x = maxDepth y" for x y
    using that by (simp add: createFractalTree_def Let_def buildTree_maxDepth[of x y])
  have "root (snd (createFractalTree a task)) = Some (fst (createFractalTree a task))"
    by (simp add: createFractalTree_def Let_def)
  then show ?thesis
    using eq[OF assms] eq[of "snd (createFractalTree a task)" a] by simp
qed

theorem createFractalTree_deterministic_witness:
  "maxDepth new_FractalAlgorithm
     = maxDepth (new_FractalAlgorithm\<lparr>spreadFactor := 3, root := Some (new_FractalNode demo_task 7)\<rparr>)
   \<and> fst (createFractalTree new_FractalAlgorithm example_parent)
     = fst (createFractalTree
              (new_FractalAlgorithm\<lparr>spreadFactor := 3, root := Some (new_FractalNode demo_task 7)\<rparr>)
              example_parent)"
  using createFractalTree_deterministic[of new_FractalAlgorithm
          "new_FractalAlgorithm\<lparr>spreadFactor := 3, root := Some (new_FractalNode demo_task 7)\<rparr>"
          example_parent]
  by simp

section \<open>Connections\<close>

lemma calculateConnections_edges:
  "map strength (calculateConnections this n)
     = map (\<lambda>(p, c). calculateConnectionStrength this p c) (edges n)"
  "map conn_to (calculateConnections this n) = map (\<lambda>(p, c). node_position c) (edges n)"
  "map conn_from (calculateConnections this n) = map (\<lambda>(p, c). node_position p) (edges n)"
  by (induction this n rule: calculateConnections.induct;
      simp add: map_concat o_def cong: map_cong)+

lemma length_calculateConnections:
  "length (calculateConnections this n) = length (edges n)"
  using arg_cong[OF calculateConnections_edges(1)[of this n], of length] by simp

lemma strength_at_maxDepth:
  "maxDepth this \<noteq> 0 \<Longrightarrow> node_depth c = maxDepth this \<Longrightarrow>
   calculateConnectionStrength this p c = 0.2"
  by (simp add: calculateConnectionStrength_def Let_def)

text \<open>
  Claim C10. In a tree built with \<open>maxDepth = 5\<close>, the connections that
  \<^verbatim>\<open>_calculateConnections\<close> lists are, one by one and in order, the parent-child edges
  of the tree, and a connection whose child is at depth \<open>maxDepth\<close> has strength
  exactly 0.2, whatever the complexities of the two nodes: the depth factor is zero
  there, and the lower clamp applies.
\<close>

theorem strength_at_depth_limit:
  assumes "maxDepth this = 5"
    and "tree = fst (createFractalTree this task)"
    and "i < length (edges tree)"
    and "node_depth (snd (edges tree ! i)) = maxDepth this"
  shows "length (calculateConnections this tree) = length (edges tree)
       \<and> conn_from (calculateConnections this tree ! i) = node_position (fst (edges tree ! i))
       \<and> conn_to (calculateConnections this tree ! i) = node_position (snd (edges tree ! i))
       \<and> strength (calculateConnections this tree ! i) = 0.2"
proof -
  have len: "length (calculateConnections this tree) = length (edges tree)"
    by (rule length_calculateConnections)
  have nth: "f (calculateConnections this tree ! i) = map f (calculateConnections this tree) ! i" for f :: "connection \<Rightarrow> 'a"
    using assms(3) len by simp
  obtain p c where pc: "edges tree ! i = (p, c)"
    by (cases "edges tree ! i")
  have "strength (calculateConnections this tree ! i) = calculateConnectionStrength this p c"
    unfolding nth calculateConnections_edges using assms(3) pc by simp
  also have "\<dots> = 0.2"
    using strength_at_maxDepth[of this c p] assms(1,4) pc by simp
  finally have s: "strength (calculateConnections this tree ! i) = 0.2" .
  have f: "conn_from (calculateConnections this tree ! i) = node_position (fst (edges tree ! i))"
    unfolding nth calculateConnections_edges using assms(3) pc by simp
  have t: "conn_to (calculateConnections this tree ! i) = node_position (snd (edges tree ! i))"
    unfolding nth calculateConnections_edges using assms(3) pc by simp
  show ?thesis using len s f t by simp
qed

lemma example_chain_edges:
  "length (edges (fst (createFractalTree new_FractalAlgorithm (example_chain 6)))) = 5"
  "node_depth (snd (edges (fst (createFractalTree new_FractalAlgorithm (example_chain 6))) ! 4)) = 5"
  by (simp_all add: createFractalTree_def buildTree.simps addChild_def new_FractalNode_def
        Let_def calculateComplexity_def new_FractalAlgorithm_def eval_nat_numeral)

theorem strength_at_depth_limit_witness:
  "node_depth (snd (edges (fst (createFractalTree new_FractalAlgorithm (example_chain 6))) ! 4))
     = maxDepth new_FractalAlgorithm
   \<and> strength (calculateConnections new_FractalAlgorithm
                 (fst (createFractalTree new_FractalAlgorithm (example_chain 6))) ! 4) = 0.2"
proof -
  let ?tree = "fst (createFractalTree new_FractalAlgorithm (example_chain 6))"
  have h1: "maxDepth new_FractalAlgorithm = 5"
    by (simp add: new_FractalAlgorithm_def)
  have h3: "4 < length (edges ?tree)"
    by (simp add: example_chain_edges(1))
  have h4: "node_depth (snd (edges ?tree ! 4)) = maxDepth new_FractalAlgorithm"
    by (simp add: example_chain_edges(2) h1)
  show ?thesis
    using strength_at_depth_limit[OF h1 refl h3 h4] h4 by simp
qed


section \<open>Colour\<close>

lemma calculateColor_known:
  assumes "task_status (node_task node) \<in>
             {None, Some [], Some ''Not Started'', Some ''In Progress'', Some ''Completed'', Some ''Blocked''}"
  shows "calculateColor node = Inr (claimed_color node)"
  using assms
  by (auto simp: calculateColor_def claimed_color_def claimed_palette_def baseColors_def Let_def)

lemma cancelled_color: "calculateColor cancelled_node = Inl TypeError"
  by (simp add: calculateColor_def cancelled_node_def baseColors_def object_prototype_names_def Let_def)

lemma blocked_color:
  "calculateColor blocked_node = Inr \<lparr>col_r = Num 239, col_g = Num 68, col_b = Num 68\<rparr>"
  using calculateColor_known[of blocked_node]
  by (simp add: blocked_node_def claimed_color_def claimed_palette_def)

text \<open>
  On the four statuses of the palette, and on a missing or empty status,
  \<^verbatim>\<open>_calculateColor\<close> returns the palette entry of the status (gray for Not Started and
  for the missing status, indigo for In Progress, green for Completed, red for Blocked),
  each channel multiplied by \<open>intensity = 0.5 + complexity / 20\<close> and clamped to 255.
\<close>

lemma calculateColor_palette:
  assumes "task_status (node_task node) \<in>
             {None, Some [], Some ''Not Started'', Some ''In Progress'',
              Some ''Completed'', Some ''Blocked''}"
  shows "calculateColor node = Inr (claimed_color node)"
  using assms calculateColor_known by blast

lemma cancelled_root:
  "fst (createFractalTree new_FractalAlgorithm (node_task cancelled_node)) = cancelled_node"
  by (simp add: createFractalTree_def buildTree.simps new_FractalNode_def Let_def
        calculateComplexity_def new_FractalAlgorithm_def cancelled_node_def)

lemma cancelled_child:
  "node_children (fst (createFractalTree new_FractalAlgorithm cancelled_parent)) =
     [FractalNode (Task ''3'' ''Old'' None (Some ''Cancelled'') None None None) 1 []
        \<lparr>pos_x = 0.5, pos_y = 1.5, pos_z = 0\<rparr> 1 1]"
  by (simp add: createFractalTree_def cancelled_parent_def buildTree.simps
        addChild_def new_FractalNode_def Let_def calculateComplexity_def
        new_FractalAlgorithm_def)

text \<open>
  Claim C4. The claim gives every node a colour, and the gray of Not Started to a node
  whose status is not in the palette. The source replaces the status by Not Started
  before the lookup, and only when it is missing or empty
  (\<^verbatim>\<open>node.task.status || 'Not Started'\<close>); any other status is looked up as it is. For
  the status Cancelled the lookup gives \<^verbatim>\<open>undefined\<close> and reading its channel \<^verbatim>\<open>r\<close>
  raises a \<^verbatim>\<open>TypeError\<close>: \<^verbatim>\<open>_calculateColor\<close> returns no colour, where the claim gives
  the gray \<open>128 * 0.55 = 70.4\<close> on each channel. The node is the root that
  \<^verbatim>\<open>createFractalTree\<close> builds for a task with that status, and the same happens at the
  child built for such a task nested in a task that is in progress.
\<close>

theorem unknown_status_no_fallback:
  "calculateColor cancelled_node = Inl TypeError
   \<and> calculateColor cancelled_node \<noteq> Inr (claimed_color cancelled_node)
   \<and> claimed_color cancelled_node =
       \<lparr>col_r = Num (352 / 5), col_g = Num (352 / 5), col_b = Num (352 / 5)\<rparr>
   \<and> fst (createFractalTree new_FractalAlgorithm (node_task cancelled_node)) = cancelled_node
   \<and> task_status (node_task
        (node_children (fst (createFractalTree new_FractalAlgorithm cancelled_parent)) ! 0))
       = Some ''Cancelled''
   \<and> calculateColor
        (node_children (fst (createFractalTree new_FractalAlgorithm cancelled_parent)) ! 0)
       = Inl TypeError"
proof -
  have "claimed_color cancelled_node =
          \<lparr>col_r = Num (352 / 5), col_g = Num (352 / 5), col_b = Num (352 / 5)\<rparr>"
    by (simp add: claimed_color_def claimed_palette_def cancelled_node_def)
  moreover have "calculateColor
        (FractalNode (Task ''3'' ''Old'' None (Some ''Cancelled'') None None None) 1 []
           \<lparr>pos_x = 0.5, pos_y = 1.5, pos_z = 0\<rparr> 1 1) = Inl TypeError"
    by (simp add: calculateColor_def baseColors_def object_prototype_names_def Let_def)
  ultimately show ?thesis
    by (simp add: cancelled_color cancelled_root cancelled_child)
qed

section \<open>Triggers\<close>

lemma str_includes_iff:
  "str_includes s pat \<longleftrightarrow> (\<exists>i \<in> {0..length s}. prefix pat (drop i s))"
proof (induction s)
  case Nil
  then show ?case by simp
next
  case (Cons c cs)
  have "(\<exists>i \<in> {0..length (c # cs)}. prefix pat (drop i (c # cs)))
        \<longleftrightarrow> prefix pat (c # cs) \<or> (\<exists>j \<in> {0..length cs}. prefix pat (drop j cs))"
  proof
    assume "\<exists>i \<in> {0..length (c # cs)}. prefix pat (drop i (c # cs))"
    then obtain i where i: "i \<le> length (c # cs)" "prefix pat (drop i (c # cs))" by auto
    show "prefix pat (c # cs) \<or> (\<exists>j \<in> {0..length cs}. prefix pat (drop j cs))"
    proof (cases i)
      case 0
      then show ?thesis using i by simp
    next
      case (Suc j)
      then have "j \<le> length cs" "prefix pat (drop j cs)" using i by simp_all
      then show ?thesis by auto
    qed
  next
    assume "prefix pat (c # cs) \<or> (\<exists>j \<in> {0..length cs}. prefix pat (drop j cs))"
    then show "\<exists>i \<in> {0..length (c # cs)}. prefix pat (drop i (c # cs))"
    proof
      assume "prefix pat (c # cs)"
      then show ?thesis by (intro bexI[of _ 0]) simp_all
    next
      assume "\<exists>j \<in> {0..length cs}. prefix pat (drop j cs)"
      then obtain j where "j \<le> length cs" "prefix pat (drop j cs)" by auto
      then show ?thesis by (intro bexI[of _ "Suc j"]) simp_all
    qed
  qed
  then show ?case using Cons.IH by simp
qed

lemma lower_char_eq_letter:
  assumes "lower_letter k"
  shows "lower_char c = k \<longleftrightarrow> ascii_lower c = k"
proof -
  let ?n = "of_char c :: nat"
  have n: "?n < 256" by simp
  consider "65 \<le> ?n \<and> ?n \<le> 90" | "192 \<le> ?n \<and> ?n \<le> 222 \<and> ?n \<noteq> 215"
    | "\<not> (65 \<le> ?n \<and> ?n \<le> 90) \<and> \<not> (192 \<le> ?n \<and> ?n \<le> 222 \<and> ?n \<noteq> 215)"
    by blast
  then show ?thesis
  proof cases
    case 1
    then show ?thesis by (simp add: lower_char_def ascii_lower_def Let_def)
  next
    case 2
    then have a: "ascii_lower c = c" by (simp add: ascii_lower_def Let_def)
    have l: "lower_char c = char_of (?n + 32)" using 2 by (simp add: lower_char_def Let_def)
    have "(of_char (char_of (?n + 32) :: char) :: nat) = ?n + 32"
      using 2 by simp
    then have "char_of (?n + 32) \<noteq> k"
      using assms 2 unfolding lower_letter_def by auto
    moreover have "c \<noteq> k"
      using assms 2 unfolding lower_letter_def by auto
    ultimately show ?thesis using a l by simp
  next
    case 3
    then show ?thesis by (auto simp: lower_char_def ascii_lower_def Let_def)
  qed
qed

lemma map_lower_eq:
  "\<forall>k \<in> set kw. lower_letter k \<Longrightarrow> map lower_char w = kw \<longleftrightarrow> map ascii_lower w = kw"
proof (induction w arbitrary: kw)
  case Nil
  then show ?case by simp
next
  case (Cons c w)
  show ?case
  proof (cases kw)
    case Nil
    then show ?thesis by simp
  next
    case (Cons k ks)
    then show ?thesis
      using Cons.IH[of ks] Cons.prems lower_char_eq_letter[of k c] by auto
  qed
qed

lemma prefix_take_iff:
  "prefix xs ys \<longleftrightarrow> length xs \<le> length ys \<and> take (length xs) ys = xs"
proof
  assume "prefix xs ys"
  then obtain zs where "ys = xs @ zs" by (auto simp: prefix_def)
  then show "length xs \<le> length ys \<and> take (length xs) ys = xs" by simp
next
  assume a: "length xs \<le> length ys \<and> take (length xs) ys = xs"
  have "ys = take (length xs) ys @ drop (length xs) ys" by simp
  then have "ys = xs @ drop (length xs) ys" using a by simp
  then show "prefix xs ys" by (auto simp: prefix_def)
qed

lemma includes_lowered:
  assumes "\<forall>k \<in> set kw. lower_letter k"
  shows "str_includes (toLowerCase s) kw \<longleftrightarrow> contains_ci s kw"
proof -
  have "prefix kw (drop i (toLowerCase s)) \<longleftrightarrow> matches_ci kw (drop i s)" for i
  proof -
    have "prefix kw (drop i (toLowerCase s))
          \<longleftrightarrow> length kw \<le> length (drop i s) \<and> take (length kw) (drop i (map lower_char s)) = kw"
      by (simp add: toLowerCase_def prefix_take_iff)
    also have "take (length kw) (drop i (map lower_char s)) = map lower_char (take (length kw) (drop i s))"
      by (simp add: take_map drop_map)
    finally show ?thesis
      using map_lower_eq[OF assms, of "take (length kw) (drop i s)"]
      by (simp add: matches_ci_def)
  qed
  then show ?thesis
    by (simp add: str_includes_iff contains_ci_def toLowerCase_def)
qed


section \<open>Branches\<close>

lemma keyword_letters:
  "\<forall>k \<in> set ''implement''. lower_letter k"
  "\<forall>k \<in> set ''develop''. lower_letter k"
  "\<forall>k \<in> set ''create''. lower_letter k"
  "\<forall>k \<in> set ''feature''. lower_letter k"
  "\<forall>k \<in> set ''functionality''. lower_letter k"
  "\<forall>k \<in> set ''improve''. lower_letter k"
  "\<forall>k \<in> set ''optimize''. lower_letter k"
  by (simp_all add: lower_letter_def)

lemma identifyPatterns_triggers:
  assumes "task_description task = Some d"
  shows "identifyPatterns task =
           (if core_trigger d then [''core-components''] else [])
           @ (if feature_trigger d then [''feature-breakdown''] else [])
           @ (if optimization_trigger d then [''optimization''] else [])"
  using assms
  by (simp add: identifyPatterns_def Let_def core_trigger_def feature_trigger_def
        optimization_trigger_def includes_lowered keyword_letters)

lemma identifyPatterns_no_description:
  "task_description task = None \<Longrightarrow> identifyPatterns task = []"
  by (simp add: identifyPatterns_def Let_def)

lemma triggers_includes:
  "core_trigger d \<longleftrightarrow> str_includes (toLowerCase d) ''implement''
      \<or> str_includes (toLowerCase d) ''develop'' \<or> str_includes (toLowerCase d) ''create''"
  "feature_trigger d \<longleftrightarrow> str_includes (toLowerCase d) ''feature''
      \<or> str_includes (toLowerCase d) ''functionality''"
  "optimization_trigger d \<longleftrightarrow> str_includes (toLowerCase d) ''improve''
      \<or> str_includes (toLowerCase d) ''optimize''"
  by (simp_all add: core_trigger_def feature_trigger_def optimization_trigger_def
        includes_lowered keyword_letters)

lemma export_triggers:
  "core_trigger ''Develop the export FEATURE''"
  "feature_trigger ''Develop the export FEATURE''"
  unfolding triggers_includes by code_simp+

lemma tuning_triggers:
  "optimization_trigger ''Optimize the renderer''"
  "\<not> core_trigger ''Optimize the renderer''"
  "\<not> feature_trigger ''Optimize the renderer''"
  unfolding triggers_includes by code_simp+

lemma tuning_score: "analyzeComplexity tuning_task = 44 / 25"
  by code_simp

lemma phase_titles:
  "digits_of (Suc 0) = ''1''" "digits_of (Suc (Suc 0)) = ''2''"
  "digits_of 1 = ''1''" "digits_of 2 = ''2''" "digits_of 3 = ''3''"
  "digits_of 4 = ''4''" "digits_of 5 = ''5''"
  by code_simp+

lemma phase_title:
  assumes "i < 5"
  shows "''Phase '' @ digits_of (i + 1) =
           [''Phase 1'', ''Phase 2'', ''Phase 3'', ''Phase 4'', ''Phase 5''] ! i"
proof -
  have "i = 0 \<or> i = 1 \<or> i = 2 \<or> i = 3 \<or> i = 4"
    using assms by linarith
  then show ?thesis
    by (elim disjE) (simp_all add: phase_titles)
qed

lemma createSubtask_fields:
  "createSubtask h task title w =
     \<lparr>sub_id = now h + random h, sub_title = title,
      sub_description = ''Part of: '' @ task_title task, sub_status = ''Not Started'',
      sub_parentId = task_id task,
      sub_complexity = (case task_complexity task of Some c \<Rightarrow> Num (c * w) | None \<Rightarrow> NaN),
      sub_created = iso h\<rparr>"
  by (cases "task_complexity task") (simp_all add: createSubtask_def)

lemma core_branch:
  assumes "task_description task = Some d" and "core_trigger d"
  shows "suggestDecomposition_with c env task =
           Inr [createSubtask (env 0) task ''Research & Planning'' 0.2,
                createSubtask (env 1) task ''Core Implementation'' 0.4,
                createSubtask (env 2) task ''Testing & Validation'' 0.2,
                createSubtask (env 3) task ''Documentation'' 0.2]"
proof -
  have "''core-components'' \<in> set (identifyPatterns task)"
    using assms(2) by (simp add: identifyPatterns_triggers[OF assms(1)])
  then show ?thesis
    by (simp add: suggestDecomposition_with_def Let_def)
qed

lemma default_branch:
  assumes "''core-components'' \<notin> set (identifyPatterns task)"
    and "''feature-breakdown'' \<notin> set (identifyPatterns task)"
  shows "suggestDecomposition_with c env task =
           Inr (map (\<lambda>i. createSubtask (env i) task
                           ([''Phase 1'', ''Phase 2'', ''Phase 3'', ''Phase 4'', ''Phase 5''] ! i)
                           (1 / real (nat (max 2 (min 5 \<lceil>c / 2\<rceil>)))))
                    [0..<nat (max 2 (min 5 \<lceil>c / 2\<rceil>))])"
proof -
  let ?n = "nat (max 2 (min 5 \<lceil>c / 2\<rceil>))"
  have r: "real_of_int (max 2 (min 5 \<lceil>c / 2\<rceil>)) = real ?n"
    by simp
  have n: "?n \<le> 5"
    by linarith
  have "suggestDecomposition_with c env task =
          Inr (map (\<lambda>i. createSubtask (env i) task (''Phase '' @ digits_of (i + 1)) (1 / real ?n))
                   [0..<?n])"
    using assms unfolding suggestDecomposition_with_def Let_def r by simp
  moreover have "map (\<lambda>i. createSubtask (env i) task (''Phase '' @ digits_of (i + 1)) (1 / real ?n))
                   [0..<?n]
               = map (\<lambda>i. createSubtask (env i) task
                           ([''Phase 1'', ''Phase 2'', ''Phase 3'', ''Phase 4'', ''Phase 5''] ! i)
                           (1 / real ?n))
                   [0..<?n]"
  proof (rule map_cong[OF refl])
    fix i assume "i \<in> set [0..<?n]"
    then have "i < 5" using n by simp
    then show "createSubtask (env i) task (''Phase '' @ digits_of (i + 1)) (1 / real ?n)
             = createSubtask (env i) task
                 ([''Phase 1'', ''Phase 2'', ''Phase 3'', ''Phase 4'', ''Phase 5''] ! i) (1 / real ?n)"
      by (simp only: phase_title)
  qed
  ultimately show ?thesis by simp
qed

text \<open>
  Claim C6. Let the description of a task contain \<^verbatim>\<open>implement\<close>, \<^verbatim>\<open>develop\<close> or
  \<^verbatim>\<open>create\<close> in any mix of cases. Then \<^verbatim>\<open>suggestDecomposition\<close> returns exactly four
  stubs, titled Research & Planning, Core Implementation, Testing & Validation and
  Documentation in this order, whose complexities are the task's own \<^verbatim>\<open>complexity\<close>
  times 0.2, 0.4, 0.2 and 0.2 (\<^verbatim>\<open>NaN\<close> when the task has no such field), and whose other
  fields are those of \<^verbatim>\<open>_createSubtask\<close>; a feature trigger in the same description
  changes nothing. Let the description contain none of the core and none of the feature
  triggers. Then, with an optimization trigger in it, the task is tagged
  \<^verbatim>\<open>optimization\<close> only, and the stubs are those of the default branch: whatever value
  \<open>complexity\<close> the score has, they are \<open>n = max 2 (min 5 \<lceil>complexity / 2\<rceil>)\<close> stubs titled
  Phase 1 to Phase \<open>n\<close>, with \<open>2 \<le> n \<le> 5\<close>, each with the task's complexity times \<open>1/n\<close>.
  Both statements are made of the body for every value of the score, and of
  \<open>suggestDecomposition\<close> itself.
\<close>

theorem decomposition_branch:
  assumes "task_description task = Some d"
  shows
    "let stub = (\<lambda>k title w.
                   \<lparr>sub_id = now (env k) + random (env k), sub_title = title,
                    sub_description = ''Part of: '' @ task_title task,
                    sub_status = ''Not Started'', sub_parentId = task_id task,
                    sub_complexity = (case task_complexity task of
                                        Some c \<Rightarrow> Num (c * w) | None \<Rightarrow> NaN),
                    sub_created = iso (env k)\<rparr>);
         four = [stub 0 ''Research & Planning'' 0.2, stub 1 ''Core Implementation'' 0.4,
                 stub 2 ''Testing & Validation'' 0.2, stub 3 ''Documentation'' 0.2];
         phases = (\<lambda>n. map (\<lambda>i. stub i ([''Phase 1'', ''Phase 2'', ''Phase 3'', ''Phase 4'',
                                            ''Phase 5''] ! i) (1 / real n)) [0..<n])
     in (core_trigger d \<longrightarrow>
           (\<forall>complexity. suggestDecomposition_with complexity env task = Inr four)
           \<and> suggestDecomposition env task = Inr four)
      \<and> (\<not> core_trigger d \<and> \<not> feature_trigger d \<longrightarrow>
           (optimization_trigger d \<longrightarrow> identifyPatterns task = [''optimization''])
           \<and> (\<forall>complexity.
                 2 \<le> nat (max 2 (min 5 \<lceil>complexity / 2\<rceil>))
                 \<and> nat (max 2 (min 5 \<lceil>complexity / 2\<rceil>)) \<le> 5
                 \<and> suggestDecomposition_with complexity env task =
                     Inr (phases (nat (max 2 (min 5 \<lceil>complexity / 2\<rceil>)))))
           \<and> (\<exists>n. 2 \<le> n \<and> n \<le> 5 \<and> suggestDecomposition env task = Inr (phases n)))"
proof -
  have core: "suggestDecomposition_with c env task =
                Inr [createSubtask (env 0) task ''Research & Planning'' 0.2,
                     createSubtask (env 1) task ''Core Implementation'' 0.4,
                     createSubtask (env 2) task ''Testing & Validation'' 0.2,
                     createSubtask (env 3) task ''Documentation'' 0.2]"
    if "core_trigger d" for c
    using core_branch[OF assms that] by simp
  have tags: "identifyPatterns task = [''optimization'']"
    if "\<not> core_trigger d" "\<not> feature_trigger d" "optimization_trigger d"
    using that by (simp add: identifyPatterns_triggers[OF assms])
  have dflt: "suggestDecomposition_with c env task =
                Inr (map (\<lambda>i. createSubtask (env i) task
                                ([''Phase 1'', ''Phase 2'', ''Phase 3'', ''Phase 4'', ''Phase 5''] ! i)
                                (1 / real (nat (max 2 (min 5 \<lceil>c / 2\<rceil>)))))
                         [0..<nat (max 2 (min 5 \<lceil>c / 2\<rceil>))])"
    if "\<not> core_trigger d" "\<not> feature_trigger d" for c
  proof (rule default_branch)
    show "''core-components'' \<notin> set (identifyPatterns task)"
      using that by (simp add: identifyPatterns_triggers[OF assms])
    show "''feature-breakdown'' \<notin> set (identifyPatterns task)"
      using that by (simp add: identifyPatterns_triggers[OF assms])
  qed
  have bounds: "2 \<le> nat (max 2 (min 5 \<lceil>c / 2\<rceil>)) \<and> nat (max 2 (min 5 \<lceil>c / 2\<rceil>)) \<le> 5"
    for c :: real
    by linarith
  show ?thesis
    unfolding Let_def
  proof (intro conjI impI allI)
    assume "core_trigger d"
    then show "suggestDecomposition env task =
        Inr [\<lparr>sub_id = now (env 0) + random (env 0), sub_title = ''Research & Planning'',
               sub_description = ''Part of: '' @ task_title task,
               sub_status = ''Not Started'', sub_parentId = task_id task,
               sub_complexity = (case task_complexity task of
                                   Some c \<Rightarrow> Num (c * 0.2) | None \<Rightarrow> NaN),
               sub_created = iso (env 0)\<rparr>,
             \<lparr>sub_id = now (env 1) + random (env 1), sub_title = ''Core Implementation'',
               sub_description = ''Part of: '' @ task_title task,
               sub_status = ''Not Started'', sub_parentId = task_id task,
               sub_complexity = (case task_complexity task of
                                   Some c \<Rightarrow> Num (c * 0.4) | None \<Rightarrow> NaN),
               sub_created = iso (env 1)\<rparr>,
             \<lparr>sub_id = now (env 2) + random (env 2), sub_title = ''Testing & Validation'',
               sub_description = ''Part of: '' @ task_title task,
               sub_status = ''Not Started'', sub_parentId = task_id task,
               sub_complexity = (case task_complexity task of
                                   Some c \<Rightarrow> Num (c * 0.2) | None \<Rightarrow> NaN),
               sub_created = iso (env 2)\<rparr>,
             \<lparr>sub_id = now (env 3) + random (env 3), sub_title = ''Documentation'',
               sub_description = ''Part of: '' @ task_title task,
               sub_status = ''Not Started'', sub_parentId = task_id task,
               sub_complexity = (case task_complexity task of
                                   Some c \<Rightarrow> Num (c * 0.2) | None \<Rightarrow> NaN),
               sub_created = iso (env 3)\<rparr>]"
      using core[of "analyzeComplexity task"]
      by (simp only: suggestDecomposition_def Let_def createSubtask_fields)
  next
    fix complexity
    assume "core_trigger d"
    then show "suggestDecomposition_with complexity env task =
        Inr [\<lparr>sub_id = now (env 0) + random (env 0), sub_title = ''Research & Planning'',
               sub_description = ''Part of: '' @ task_title task,
               sub_status = ''Not Started'', sub_parentId = task_id task,
               sub_complexity = (case task_complexity task of
                                   Some c \<Rightarrow> Num (c * 0.2) | None \<Rightarrow> NaN),
               sub_created = iso (env 0)\<rparr>,
             \<lparr>sub_id = now (env 1) + random (env 1), sub_title = ''Core Implementation'',
               sub_description = ''Part of: '' @ task_title task,
               sub_status = ''Not Started'', sub_parentId = task_id task,
               sub_complexity = (case task_complexity task of
                                   Some c \<Rightarrow> Num (c * 0.4) | None \<Rightarrow> NaN),
               sub_created = iso (env 1)\<rparr>,
             \<lparr>sub_id = now (env 2) + random (env 2), sub_title = ''Testing & Validation'',
               sub_description = ''Part of: '' @ task_title task,
               sub_status = ''Not Started'', sub_parentId = task_id task,
               sub_complexity = (case task_complexity task of
                                   Some c \<Rightarrow> Num (c * 0.2) | None \<Rightarrow> NaN),
               sub_created = iso (env 2)\<rparr>,
             \<lparr>sub_id = now (env 3) + random (env 3), sub_title = ''Documentation'',
               sub_description = ''Part of: '' @ task_title task,
               sub_status = ''Not Started'', sub_parentId = task_id task,
               sub_complexity = (case task_complexity task of
                                   Some c \<Rightarrow> Num (c * 0.2) | None \<Rightarrow> NaN),
               sub_created = iso (env 3)\<rparr>]"
      using core[of complexity]
      by (simp only: createSubtask_fields)
  next
    assume "\<not> core_trigger d \<and> \<not> feature_trigger d" and "optimization_trigger d"
    then show "identifyPatterns task = [''optimization'']"
      using tags by simp
  next
    fix complexity :: real
    show "2 \<le> nat (max 2 (min 5 \<lceil>complexity / 2\<rceil>))"
      using bounds by simp
    show "nat (max 2 (min 5 \<lceil>complexity / 2\<rceil>)) \<le> 5"
      using bounds by simp
  next
    fix complexity
    assume a: "\<not> core_trigger d \<and> \<not> feature_trigger d"
    show "suggestDecomposition_with complexity env task =
        Inr (map (\<lambda>i. \<lparr>sub_id = now (env i) + random (env i),
                        sub_title = [''Phase 1'', ''Phase 2'', ''Phase 3'', ''Phase 4'',
                                     ''Phase 5''] ! i,
                        sub_description = ''Part of: '' @ task_title task,
                        sub_status = ''Not Started'', sub_parentId = task_id task,
                        sub_complexity =
                          (case task_complexity task of
                             Some c \<Rightarrow>
                               Num (c * (1 / real (nat (max 2 (min 5 \<lceil>complexity / 2\<rceil>)))))
                           | None \<Rightarrow> NaN),
                        sub_created = iso (env i)\<rparr>)
                 [0..<nat (max 2 (min 5 \<lceil>complexity / 2\<rceil>))])"
      using dflt[OF conjunct1[OF a] conjunct2[OF a], of complexity]
      by (simp only: createSubtask_fields)
  next
    assume a: "\<not> core_trigger d \<and> \<not> feature_trigger d"
    let ?n = "nat (max 2 (min 5 \<lceil>analyzeComplexity task / 2\<rceil>))"
    have "suggestDecomposition env task =
        Inr (map (\<lambda>i. \<lparr>sub_id = now (env i) + random (env i),
                        sub_title = [''Phase 1'', ''Phase 2'', ''Phase 3'', ''Phase 4'',
                                     ''Phase 5''] ! i,
                        sub_description = ''Part of: '' @ task_title task,
                        sub_status = ''Not Started'', sub_parentId = task_id task,
                        sub_complexity =
                          (case task_complexity task of
                             Some c \<Rightarrow> Num (c * (1 / real ?n)) | None \<Rightarrow> NaN),
                        sub_created = iso (env i)\<rparr>)
                 [0..<?n])"
      using dflt[OF conjunct1[OF a] conjunct2[OF a], of "analyzeComplexity task"]
      by (simp only: createSubtask_fields suggestDecomposition_def Let_def)
    then show "\<exists>n. 2 \<le> n \<and> n \<le> 5 \<and> suggestDecomposition env task =
        Inr (map (\<lambda>i. \<lparr>sub_id = now (env i) + random (env i),
                        sub_title = [''Phase 1'', ''Phase 2'', ''Phase 3'', ''Phase 4'',
                                     ''Phase 5''] ! i,
                        sub_description = ''Part of: '' @ task_title task,
                        sub_status = ''Not Started'', sub_parentId = task_id task,
                        sub_complexity =
                          (case task_complexity task of
                             Some c \<Rightarrow> Num (c * (1 / real n)) | None \<Rightarrow> NaN),
                        sub_created = iso (env i)\<rparr>)
                 [0..<n])"
      using bounds[of "analyzeComplexity task"] by blast
  qed
qed

theorem decomposition_branch_witness:
  "core_trigger ''Develop the export FEATURE'' \<and> feature_trigger ''Develop the export FEATURE''
   \<and> suggestDecomposition example_env export_task =
        Inr [\<lparr>sub_id = 1745257280418 + 1 / 2, sub_title = ''Research & Planning'',
               sub_description = ''Part of: Export'', sub_status = ''Not Started'',
               sub_parentId = ''8'', sub_complexity = Num 2,
               sub_created = ''2025-04-21T17:41:20.418Z''\<rparr>,
             \<lparr>sub_id = 1745257280418 + 1 / 3, sub_title = ''Core Implementation'',
               sub_description = ''Part of: Export'', sub_status = ''Not Started'',
               sub_parentId = ''8'', sub_complexity = Num 4,
               sub_created = ''2025-04-21T17:41:20.418Z''\<rparr>,
             \<lparr>sub_id = 1745257280418 + 1 / 4, sub_title = ''Testing & Validation'',
               sub_description = ''Part of: Export'', sub_status = ''Not Started'',
               sub_parentId = ''8'', sub_complexity = Num 2,
               sub_created = ''2025-04-21T17:41:20.418Z''\<rparr>,
             \<lparr>sub_id = 1745257280418 + 1 / 5, sub_title = ''Documentation'',
               sub_description = ''Part of: Export'', sub_status = ''Not Started'',
               sub_parentId = ''8'', sub_complexity = Num 2,
               sub_created = ''2025-04-21T17:41:20.418Z''\<rparr>]
   \<and> optimization_trigger ''Optimize the renderer''
   \<and> \<not> core_trigger ''Optimize the renderer'' \<and> \<not> feature_trigger ''Optimize the renderer''
   \<and> identifyPatterns tuning_task = [''optimization'']
   \<and> analyzeComplexity tuning_task = 44 / 25
   \<and> suggestDecomposition example_env tuning_task =
        Inr [\<lparr>sub_id = 1745257280418 + 1 / 2, sub_title = ''Phase 1'',
               sub_description = ''Part of: Tuning'', sub_status = ''Not Started'',
               sub_parentId = ''9'', sub_complexity = Num (3 / 2),
               sub_created = ''2025-04-21T17:41:20.418Z''\<rparr>,
             \<lparr>sub_id = 1745257280418 + 1 / 3, sub_title = ''Phase 2'',
               sub_description = ''Part of: Tuning'', sub_status = ''Not Started'',
               sub_parentId = ''9'', sub_complexity = Num (3 / 2),
               sub_created = ''2025-04-21T17:41:20.418Z''\<rparr>]"
proof -
  have d1: "task_description export_task = Some ''Develop the export FEATURE''"
    by (simp add: export_task_def)
  have d2: "task_description tuning_task = Some ''Optimize the renderer''"
    by (simp add: tuning_task_def)
  have u: "[0..<2] = [0, Suc 0]"
    by (simp add: upt_rec)
  have n: "nat (max 2 (min 5 \<lceil>(44 / 25 :: real) / 2\<rceil>)) = 2"
    by (simp add: ceiling_eq_iff)
  have f: "task_title export_task = ''Export''" "task_id export_task = ''8''"
          "task_complexity export_task = Some 10"
          "task_title tuning_task = ''Tuning''" "task_id tuning_task = ''9''"
          "task_complexity tuning_task = Some 3"
    by (simp_all add: export_task_def tuning_task_def)
  have e: "now (example_env k) = 1745257280418" "random (example_env k) = 1 / real (k + 2)"
          "iso (example_env k) = ''2025-04-21T17:41:20.418Z''" for k
    by (simp_all add: example_env_def)
  have c1: "suggestDecomposition example_env export_task = Inr [
      \<lparr>sub_id = 1745257280418 + 1 / 2, sub_title = ''Research & Planning'',
        sub_description = ''Part of: Export'', sub_status = ''Not Started'',
        sub_parentId = ''8'', sub_complexity = Num 2,
        sub_created = ''2025-04-21T17:41:20.418Z''\<rparr>,
      \<lparr>sub_id = 1745257280418 + 1 / 3, sub_title = ''Core Implementation'',
        sub_description = ''Part of: Export'', sub_status = ''Not Started'',
        sub_parentId = ''8'', sub_complexity = Num 4,
        sub_created = ''2025-04-21T17:41:20.418Z''\<rparr>,
      \<lparr>sub_id = 1745257280418 + 1 / 4, sub_title = ''Testing & Validation'',
        sub_description = ''Part of: Export'', sub_status = ''Not Started'',
        sub_parentId = ''8'', sub_complexity = Num 2,
        sub_created = ''2025-04-21T17:41:20.418Z''\<rparr>,
      \<lparr>sub_id = 1745257280418 + 1 / 5, sub_title = ''Documentation'',
        sub_description = ''Part of: Export'', sub_status = ''Not Started'',
        sub_parentId = ''8'', sub_complexity = Num 2,
        sub_created = ''2025-04-21T17:41:20.418Z''\<rparr>]"
    using decomposition_branch[OF d1, of example_env] export_triggers
    by (simp add: Let_def f e)
  have t: "\<not> core_trigger ''Optimize the renderer'' \<and> \<not> feature_trigger ''Optimize the renderer''"
    using tuning_triggers by simp
  note b = decomposition_branch[OF d2, of example_env, unfolded Let_def,
             THEN conjunct2, rule_format, OF t]
  have c2: "identifyPatterns tuning_task = [''optimization'']"
    using b tuning_triggers(1) by simp
  note b2 = b[THEN conjunct2, THEN conjunct1, rule_format]
  have c3: "suggestDecomposition example_env tuning_task = Inr [
      \<lparr>sub_id = 1745257280418 + 1 / 2, sub_title = ''Phase 1'',
        sub_description = ''Part of: Tuning'', sub_status = ''Not Started'',
        sub_parentId = ''9'', sub_complexity = Num (3 / 2),
        sub_created = ''2025-04-21T17:41:20.418Z''\<rparr>,
      \<lparr>sub_id = 1745257280418 + 1 / 3, sub_title = ''Phase 2'',
        sub_description = ''Part of: Tuning'', sub_status = ''Not Started'',
        sub_parentId = ''9'', sub_complexity = Num (3 / 2),
        sub_created = ''2025-04-21T17:41:20.418Z''\<rparr>]"
    using b2[of "44 / 25"] unfolding n
    by (simp add: suggestDecomposition_def tuning_score f e u)
  show ?thesis
    using export_triggers tuning_triggers c1 c2 c3 tuning_score by simp
qed

lemma js_sum_replicate:
  "foldl js_plus (Num a) (replicate n (Num x)) = Num (a + real n * x)"
  by (induction n arbitrary: a) (simp_all add: algebra_simps)

lemma js_plus_NaN [simp]: "js_plus a NaN = NaN" "js_plus NaN a = NaN"
  by (cases a; simp)+

lemma foldl_js_plus_NaN [simp]: "foldl js_plus NaN xs = NaN"
  by (induction xs) simp_all

lemma js_sum_shares:
  assumes "0 < n"
  shows "js_sum (map (\<lambda>i. sub_complexity (createSubtask (env i) task (title i) (1 / real n))) [0..<n])
           = js_times (task_complexity task) 1"
proof (cases "task_complexity task")
  case None
  have "map (\<lambda>i. sub_complexity (createSubtask (env i) task (title i) (1 / real n))) [0..<n]
          = replicate n NaN"
    using None by (simp add: createSubtask_def map_replicate_const)
  moreover have "foldl js_plus a (replicate n NaN) = NaN" for a
    using assms by (cases n) simp_all
  ultimately show ?thesis using None by (simp add: js_sum_def)
next
  case (Some c)
  have "map (\<lambda>i. sub_complexity (createSubtask (env i) task (title i) (1 / real n))) [0..<n]
          = replicate n (Num (c * (1 / real n)))"
    using Some by (simp add: createSubtask_def map_replicate_const)
  then show ?thesis
    using Some assms by (simp add: js_sum_def js_sum_replicate)
qed

lemma extractFeatures_nonempty: "extractFeatures d \<noteq> []"
  by (auto simp: extractFeatures_def Let_def)

lemma stub_complexity_sum:
  assumes "suggestDecomposition_with complexity env task = Inr stubs"
  shows "js_sum (map sub_complexity stubs) = js_times (task_complexity task) 1"
proof -
  consider (core) "''core-components'' \<in> set (identifyPatterns task)"
    | (feat) "''core-components'' \<notin> set (identifyPatterns task)"
             "''feature-breakdown'' \<in> set (identifyPatterns task)"
    | (dflt) "''core-components'' \<notin> set (identifyPatterns task)"
             "''feature-breakdown'' \<notin> set (identifyPatterns task)"
    by blast
  then show ?thesis
  proof cases
    case core
    then have "stubs = [createSubtask (env 0) task ''Research & Planning'' 0.2,
                   createSubtask (env 1) task ''Core Implementation'' 0.4,
                   createSubtask (env 2) task ''Testing & Validation'' 0.2,
                   createSubtask (env 3) task ''Documentation'' 0.2]"
      using assms by (simp add: suggestDecomposition_with_def Let_def)
    then show ?thesis
      by (cases "task_complexity task") (simp_all add: js_sum_def createSubtask_def algebra_simps)
  next
    case feat
    then obtain d where d: "task_description task = Some d"
      using assms by (cases "task_description task") (simp_all add: suggestDecomposition_with_def Let_def)
    let ?fs = "extractFeatures d"
    have "stubs = map (\<lambda>k. createSubtask (env k) task (?fs ! k) (1 / real (length ?fs))) [0..<length ?fs]"
      using assms feat d by (simp add: suggestDecomposition_with_def Let_def)
    then show ?thesis
      using js_sum_shares[of "length ?fs" env task "\<lambda>k. ?fs ! k"] extractFeatures_nonempty[of d]
      by (simp add: o_def)
  next
    case dflt
    let ?n = "nat (max 2 (min 5 \<lceil>complexity / 2\<rceil>))"
    have n: "0 < ?n"
      by linarith
    have "stubs = map (\<lambda>i. createSubtask (env i) task
                             ([''Phase 1'', ''Phase 2'', ''Phase 3'', ''Phase 4'', ''Phase 5''] ! i)
                             (1 / real ?n)) [0..<?n]"
      using assms default_branch[OF dflt, of complexity env] by simp
    then show ?thesis
      using js_sum_shares[OF n, of env task
              "\<lambda>i. [''Phase 1'', ''Phase 2'', ''Phase 3'', ''Phase 4'', ''Phase 5''] ! i"]
      by (simp add: o_def)
  qed
qed

lemma form_task_facts:
  "identifyPatterns form_task = []" "analyzeComplexity form_task = 1"
  by (simp_all add: identifyPatterns_def form_task_def analyzeComplexity.simps toLowerCase_def Let_def)

text \<open>
  Claim C5 at the task that the form creates, which like every task of the store has
  no field \<^verbatim>\<open>complexity\<close>: the default branch emits Phase 1 and Phase 2, and the
  complexity of each stub is \<^verbatim>\<open>undefined * 0.5 = NaN\<close>, so the complexities sum to
  \<^verbatim>\<open>NaN\<close> and to no number. (For a task that carries a number \<open>c\<close> in that field,
  \<open>stub_complexity_sum\<close> shows the sum to be \<open>c\<close> in every branch.)
\<close>

theorem form_task_stubs:
  "suggestDecomposition env form_task =
     Inr [createSubtask (env 0) form_task ''Phase 1'' 0.5,
          createSubtask (env 1) form_task ''Phase 2'' 0.5]
   \<and> sub_complexity (createSubtask (env 0) form_task ''Phase 1'' 0.5) = NaN
   \<and> sub_complexity (createSubtask (env 1) form_task ''Phase 2'' 0.5) = NaN
   \<and> js_sum (map sub_complexity
        [createSubtask (env 0) form_task ''Phase 1'' 0.5,
         createSubtask (env 1) form_task ''Phase 2'' 0.5]) = NaN"
proof -
  have u: "[0..<2] = [0, Suc 0]"
    by (simp add: upt_rec)
  have "suggestDecomposition env form_task =
     Inr [createSubtask (env 0) form_task ''Phase 1'' 0.5,
          createSubtask (env 1) form_task ''Phase 2'' 0.5]"
    by (simp add: suggestDecomposition_def suggestDecomposition_with_def form_task_facts Let_def u phase_titles)
  moreover have "task_complexity form_task = None"
    by (simp add: form_task_def)
  ultimately show ?thesis
    by (simp add: createSubtask_def js_sum_def)
qed

section \<open>Frame\<close>

lemma frame_inv_start: "store_ok s \<Longrightarrow> frame_inv s s"
  by (auto simp: frame_inv_def store_ok_def get_node_def)

lemma frame_inv_unchanged: "store_ok s0 \<Longrightarrow> frame_inv s0 s \<Longrightarrow> unchanged s0 s"
  unfolding frame_inv_def store_ok_def unchanged_def
  by (metis not_le_imp_less)

lemma get_node_set_position:
  assumes "set_position s a p = Some s'"
  shows "get_node s' b = get_node s b"
proof -
  obtain ob where ob: "objs s a = Some ob"
    and s': "s' = s\<lparr>objs := (objs s)(a \<mapsto> ob\<lparr>obj_position := Some p\<rparr>)\<rparr>"
    using assms by (auto simp: set_position_def split: option.splits)
  show ?thesis
    by (cases "b = a") (simp_all add: get_node_def s' ob)
qed

lemma lim_set_position: "set_position s a p = Some s' \<Longrightarrow> lim s' = lim s"
  by (auto simp: set_position_def split: option.splits)

lemma objs_set_position:
  "set_position s a p = Some s' \<Longrightarrow> b \<noteq> a \<Longrightarrow> objs s' b = objs s b"
  by (auto simp: set_position_def split: option.splits)

lemma inv_set_position:
  assumes "frame_inv s0 s" "lim s0 \<le> a" "set_position s a p = Some s'"
  shows "frame_inv s0 s'"
  using assms(1,2) get_node_set_position[OF assms(3)] lim_set_position[OF assms(3)]
    objs_set_position[OF assms(3)]
  unfolding frame_inv_def by (metis not_le)

lemma inv_push_child:
  assumes "frame_inv s0 s" "lim s0 \<le> a" "lim s0 \<le> c" "push_child s a c = Some s'"
  shows "frame_inv s0 s'"
proof -
  obtain ob nd where ob: "objs s a = Some ob" "obj_kind ob = NodeObj nd"
    and s': "s' = s\<lparr>objs := (objs s)(a \<mapsto>
                        ob\<lparr>obj_kind := NodeObj (nd\<lparr>nf_children := nf_children nd @ [c]\<rparr>)\<rparr>)\<rparr>"
    using assms(4) by (auto simp: push_child_def split: option.splits kind.splits)
  have old: "get_node s a = Some nd"
    using ob by (simp add: get_node_def)
  have "\<forall>b n'. lim s0 \<le> b \<longrightarrow> get_node s' b = Some n' \<longrightarrow> (\<forall>x \<in> set (nf_children n'). lim s0 \<le> x)"
  proof (intro allI impI ballI)
    fix b n' x
    assume b: "lim s0 \<le> b" "get_node s' b = Some n'" "x \<in> set (nf_children n')"
    show "lim s0 \<le> x"
    proof (cases "b = a")
      case True
      then have "n' = nd\<lparr>nf_children := nf_children nd @ [c]\<rparr>"
        using b(2) s' by (simp add: get_node_def)
      then have "x \<in> set (nf_children nd) \<or> x = c" using b(3) by auto
      then show ?thesis using assms(1,2,3) old unfolding frame_inv_def by blast
    next
      case False
      then have "get_node s b = Some n'" using b(2) s' by (simp add: get_node_def)
      then show ?thesis using assms(1) b(1,3) unfolding frame_inv_def by blast
    qed
  qed
  moreover have "lim s0 \<le> lim s'" using assms(1) s' by (simp add: frame_inv_def)
  moreover have "\<forall>b < lim s0. objs s' b = objs s0 b"
    using assms(1,2) s' by (auto simp: frame_inv_def)
  ultimately show ?thesis unfolding frame_inv_def by blast
qed

lemma inv_new_FractalNode:
  assumes "frame_inv s0 s" "st_new_FractalNode s t d = Some (n, s')"
  shows "frame_inv s0 s' \<and> lim s0 \<le> n"
proof -
  obtain tk where s': "s' = s\<lparr>objs := (objs s)(lim s \<mapsto>
        \<lparr>obj_kind = NodeObj \<lparr>nf_task = t, nf_depth = d, nf_children = [],
                              nf_size = 1.0, nf_complexity = st_calculateComplexity tk\<rparr>,
         obj_position = Some \<lparr>pos_x = 0, pos_y = 0, pos_z = 0\<rparr>\<rparr>), lim := lim s + 1\<rparr>"
    and n: "n = lim s"
    using assms(2) by (auto simp: st_new_FractalNode_def alloc_def bind_eq_Some_conv)
  have "\<forall>b n'. lim s0 \<le> b \<longrightarrow> get_node s' b = Some n' \<longrightarrow> (\<forall>x \<in> set (nf_children n'). lim s0 \<le> x)"
  proof (intro allI impI ballI)
    fix b n' x
    assume b: "lim s0 \<le> b" "get_node s' b = Some n'" "x \<in> set (nf_children n')"
    show "lim s0 \<le> x"
    proof (cases "b = lim s")
      case True
      then have "nf_children n' = []" using b(2) s' by (auto simp: get_node_def)
      then show ?thesis using b(3) by simp
    next
      case False
      then have "get_node s b = Some n'" using b(2) s' by (simp add: get_node_def)
      then show ?thesis using assms(1) b(1,3) unfolding frame_inv_def by blast
    qed
  qed
  moreover have "lim s0 \<le> lim s'" "lim s0 \<le> n" using assms(1) s' n by (simp_all add: frame_inv_def)
  moreover have "\<forall>b < lim s0. objs s' b = objs s0 b"
    using assms(1) s' by (auto simp: frame_inv_def)
  ultimately show ?thesis unfolding frame_inv_def by blast
qed

lemma inv_updateLayout:
  "\<forall>s'. frame_inv s0 s \<longrightarrow> lim s0 \<le> this \<longrightarrow> st_updateLayout fuel s this = Some s'
        \<longrightarrow> frame_inv s0 s'"
  "\<forall>s'. frame_inv s0 s \<longrightarrow> (\<forall>c \<in> set cs. lim s0 \<le> c)
        \<longrightarrow> st_forEach_child fuel s this angleStep radius index cs = Some s'
        \<longrightarrow> frame_inv s0 s'"
proof (induction fuel s this and fuel s this angleStep radius index cs
       rule: st_updateLayout_st_forEach_child.induct)
  case (1 s this)
  then show ?case by simp
next
  case (2 fuel s this)
  show ?case
  proof (intro allI impI)
    fix s'
    assume inv: "frame_inv s0 s" and fresh: "lim s0 \<le> this"
      and run: "st_updateLayout (Suc fuel) s this = Some s'"
    from run obtain nd where nd: "get_node s this = Some nd"
      and loop: "st_forEach_child fuel s this (2 * pi / real (length (nf_children nd)))
                   (max 0.5 (real (length (nf_children nd)) * 0.2)) 0 (nf_children nd) = Some s'"
      by (auto simp: bind_eq_Some_conv Let_def)
    have "\<forall>c \<in> set (nf_children nd). lim s0 \<le> c"
      using inv fresh nd unfolding frame_inv_def by blast
    then show "frame_inv s0 s'"
      using 2[OF nd refl refl] inv loop by blast
  qed
next
  case (3 fuel s this angleStep radius index)
  then show ?case by simp
next
  case (4 fuel s this angleStep radius index child rest)
  show ?case
  proof (intro allI impI)
    fix s'
    assume inv: "frame_inv s0 s" and fresh: "\<forall>c \<in> set (child # rest). lim s0 \<le> c"
      and run: "st_forEach_child fuel s this angleStep radius index (child # rest) = Some s'"
    from run obtain p s1 s2 where p: "get_position s this = Some p"
      and s1: "set_position s child
                 \<lparr>pos_x = pos_x p + cos (angleStep * real index) * radius,
                  pos_y = pos_y p - 0.5,
                  pos_z = pos_z p + sin (angleStep * real index) * radius\<rparr> = Some s1"
      and s2: "st_updateLayout fuel s1 child = Some s2"
      and s3: "st_forEach_child fuel s2 this angleStep radius (index + 1) rest = Some s'"
      by (auto simp: bind_eq_Some_conv Let_def)
    have i1: "frame_inv s0 s1"
      using inv_set_position[OF inv _ s1] fresh by simp
    have i2: "frame_inv s0 s2"
      using 4(1)[OF p refl s1] i1 fresh s2 by simp
    show "frame_inv s0 s'"
      using 4(2)[OF p refl s1 s2] i2 fresh s3 by simp
  qed
qed

lemma inv_addChild:
  assumes "frame_inv s0 s" "lim s0 \<le> n" "lim s0 \<le> c" "st_addChild fuel s n c = Some s'"
  shows "frame_inv s0 s'"
proof -
  from assms(4) obtain s1 where s1: "push_child s n c = Some s1"
    and s2: "st_updateLayout fuel s1 n = Some s'"
    by (auto simp: st_addChild_def bind_eq_Some_conv)
  have "frame_inv s0 s1" using inv_push_child[OF assms(1,2,3) s1] .
  then show ?thesis using inv_updateLayout(1)[of s0 s1 n fuel] assms(2) s2 by blast
qed

lemma inv_buildTree:
  "\<forall>r s'. frame_inv s0 s \<longrightarrow> st_buildTree fuel this s t d = Some (r, s')
        \<longrightarrow> frame_inv s0 s' \<and> lim s0 \<le> r"
  "\<forall>s'. frame_inv s0 s \<longrightarrow> lim s0 \<le> node
        \<longrightarrow> st_forEach_subtask fuel this s node d subs = Some s'
        \<longrightarrow> frame_inv s0 s'"
proof (induction fuel this s t d and fuel this s node d subs
       rule: st_buildTree_st_forEach_subtask.induct)
  case (1 this s task depth)
  then show ?case by simp
next
  case (2 fuel this s task depth)
  show ?case
  proof (intro allI impI)
    fix r s'
    assume inv: "frame_inv s0 s"
      and run: "st_buildTree (Suc fuel) this s task depth = Some (r, s')"
    obtain node s1 where n: "st_new_FractalNode s task depth = Some (node, s1)"
      using run by (cases "st_new_FractalNode s task depth") auto
    obtain tk where tk: "get_task s1 task = Some tk"
      using run n by (cases "get_task s1 task") auto
    have rest: "(case tf_subtasks tk of
         Some subs \<Rightarrow>
           if depth < maxDepth this
           then do { s \<leftarrow> st_forEach_subtask fuel this s1 node depth subs; Some (node, s) }
           else Some (node, s1)
       | None \<Rightarrow> Some (node, s1)) = Some (r, s')"
      using run n tk by simp
    have i1: "frame_inv s0 s1" "lim s0 \<le> node"
      using inv_new_FractalNode[OF inv n] by simp_all
    show "frame_inv s0 s' \<and> lim s0 \<le> r"
    proof (cases "tf_subtasks tk")
      case None
      then show ?thesis using rest i1 by simp
    next
      case (Some subs)
      show ?thesis
      proof (cases "depth < maxDepth this")
        case False
        then show ?thesis using rest i1 Some by simp
      next
        case True
        have "do { s \<leftarrow> st_forEach_subtask fuel this s1 node depth subs; Some (node, s) }
                = Some (r, s')"
          using rest Some True by simp
        then obtain s2 where s2: "st_forEach_subtask fuel this s1 node depth subs = Some s2"
          and res: "r = node" "s' = s2"
          by (cases "st_forEach_subtask fuel this s1 node depth subs") auto
        have "frame_inv s0 s2"
          using 2[OF n refl tk Some True] i1 s2 by blast
        then show ?thesis using res i1 by simp
      qed
    qed
  qed
next
  case (3 fuel this s node depth)
  then show ?case by simp
next
  case (4 fuel this s node depth subtask rest)
  show ?case
  proof (intro allI impI)
    fix s'
    assume inv: "frame_inv s0 s" and fresh: "lim s0 \<le> node"
      and run: "st_forEach_subtask fuel this s node depth (subtask # rest) = Some s'"
    from run obtain c s1 s2 where c: "st_buildTree fuel this s subtask (depth + 1) = Some (c, s1)"
      and a: "st_addChild fuel s1 node c = Some s2"
      and r: "st_forEach_subtask fuel this s2 node depth rest = Some s'"
      by (auto simp: bind_eq_Some_conv)
    have i1: "frame_inv s0 s1" "lim s0 \<le> c"
      using 4(1) inv c by blast+
    have i2: "frame_inv s0 s2"
      using inv_addChild[OF i1(1) fresh i1(2) a] .
    show "frame_inv s0 s'"
      using 4(2)[OF c refl a] i2 fresh r by blast
  qed
qed

lemma createFractalTree_frame:
  assumes "store_ok s" "st_createFractalTree fuel this s t = Some (r, s')"
  shows "unchanged s s' \<and> objs s r = None"
proof -
  from assms(2) obtain s1 s2 where b: "st_buildTree fuel this s t 0 = Some (r, s1)"
    and p: "set_position s1 r \<lparr>pos_x = 0, pos_y = 2, pos_z = 0\<rparr> = Some s2"
    and u: "st_updateLayout fuel s2 r = Some s'"
    by (auto simp: st_createFractalTree_def bind_eq_Some_conv)
  have i1: "frame_inv s s1" "lim s \<le> r"
    using inv_buildTree(1)[of s s fuel this t 0] frame_inv_start[OF assms(1)] b by blast+
  have i2: "frame_inv s s2"
    using inv_set_position[OF i1 p] .
  have "frame_inv s s'"
    using inv_updateLayout(1)[of s s2 r fuel] i2 i1(2) u by blast
  then show ?thesis
    using frame_inv_unchanged[OF assms(1)] assms(1) i1(2) by (simp add: store_ok_def)
qed

lemma alloc_all_frame:
  "alloc_all s obs = (as, s') \<Longrightarrow>
   lim s' = lim s + length obs \<and> as = [lim s..<lim s + length obs]
   \<and> (\<forall>a < lim s. objs s' a = objs s a)
   \<and> (\<forall>i < length obs. objs s' (lim s + i) = Some (obs ! i))
   \<and> (store_ok s \<longrightarrow> store_ok s')"
proof (induction obs arbitrary: s as s')
  case Nil
  then show ?case by simp
next
  case (Cons ob obs)
  let ?s1 = "s\<lparr>objs := (objs s)(lim s \<mapsto> ob), lim := lim s + 1\<rparr>"
  obtain bs where bs: "alloc_all ?s1 obs = (bs, s')" and as: "as = lim s # bs"
    using Cons.prems by (auto simp: alloc_def Let_def split: prod.splits)
  note IH = Cons.IH[OF bs]
  have ok: "store_ok s \<longrightarrow> store_ok ?s1" by (simp add: store_ok_def)
  have nth: "\<forall>i < length (ob # obs). objs s' (lim s + i) = Some ((ob # obs) ! i)"
  proof (intro allI impI)
    fix i assume i: "i < length (ob # obs)"
    show "objs s' (lim s + i) = Some ((ob # obs) ! i)"
    proof (cases i)
      case 0
      then show ?thesis using IH by simp
    next
      case (Suc j)
      then show ?thesis using IH i by simp
    qed
  qed
  have "as = [lim s..<lim s + length (ob # obs)]"
    using IH as by (simp add: upt_rec)
  moreover have "\<forall>a < lim s. objs s' a = objs s a" using IH by simp
  ultimately show ?case using IH nth ok by simp
qed

lemma suggestDecomposition_frame:
  assumes "store_ok s" "st_suggestDecomposition fuel env s t = Some (stubs, s')"
  shows "unchanged s s' \<and> (\<forall>a \<in> set stubs. objs s a = None) \<and> distinct stubs
       \<and> (\<forall>a \<in> set stubs. \<exists>st. objs s' a = Some \<lparr>obj_kind = StubObj st, obj_position = None\<rparr>)"
proof -
  from assms(2) obtain obs where a: "alloc_all s obs = (stubs, s')"
    and obs: "\<forall>ob \<in> set obs. \<exists>st. ob = \<lparr>obj_kind = StubObj st, obj_position = None\<rparr>"
    unfolding st_suggestDecomposition_def Let_def
    by (auto simp: bind_eq_Some_conv)
  note f = alloc_all_frame[OF a]
  have "unchanged s s'"
    using f assms(1) unfolding unchanged_def store_ok_def by (metis not_le_imp_less)
  moreover have "\<forall>a \<in> set stubs. objs s a = None"
    using f assms(1) by (simp add: store_ok_def)
  moreover have "distinct stubs" using f by simp
  moreover have "\<forall>a \<in> set stubs. \<exists>st. objs s' a = Some \<lparr>obj_kind = StubObj st, obj_position = None\<rparr>"
  proof
    fix a assume "a \<in> set stubs"
    then obtain i where i: "i < length obs" "a = lim s + i"
      using f by (auto simp: nat_le_iff_add)
    then have "objs s' a = Some (obs ! i)" using f by simp
    then show "\<exists>st. objs s' a = Some \<lparr>obj_kind = StubObj st, obj_position = None\<rparr>"
      using obs i(1) by (metis nth_mem)
  qed
  ultimately show ?thesis by simp
qed

lemma example_store_ok: "store_ok example_store"
  by (simp add: store_ok_def example_store_def)

text \<open>
  On the example store the two embeddings agree: the nodes made are at the addresses 3,
  4 and 5, with the positions and complexities of the tree of \<open>createFractalTree\<close>.
\<close>

lemma example_store_agrees:
  "case st_createFractalTree 3 new_FractalAlgorithm example_store 0 of
     Some (r, s') \<Rightarrow>
       r = 3
       \<and> map (get_position s') [3, 4, 5]
           = map (\<lambda>n. Some (node_position n)) (nodes (fst (createFractalTree new_FractalAlgorithm example_pair)))
       \<and> map (map_option nf_children \<circ> get_node s') [3, 4, 5] = [Some [4, 5], Some [], Some []]
       \<and> map (map_option nf_complexity \<circ> get_node s') [3, 4, 5]
           = map (\<lambda>n. Some (node_complexity n)) (nodes (fst (createFractalTree new_FractalAlgorithm example_pair)))
   | None \<Rightarrow> False"
  by (simp add: st_createFractalTree_def example_store_def new_FractalAlgorithm_def
        eval_nat_numeral st_new_FractalNode_def get_task_def get_node_def alloc_def
        st_addChild_def push_child_def set_position_def get_position_def Let_def
        createFractalTree_def example_pair_def example_leaf_def buildTree.simps addChild_def
        new_FractalNode_def calculateComplexity_def st_calculateComplexity_def)

lemma nodes_ok_set_position:
  assumes "nodes_ok L s" "set_position s a p = Some s'"
  shows "nodes_ok L s'"
proof -
  obtain ob where ob: "objs s a = Some ob"
    and s': "s' = s\<lparr>objs := (objs s)(a \<mapsto> ob\<lparr>obj_position := Some p\<rparr>)\<rparr>"
    using assms(2) by (auto simp: set_position_def split: option.splits)
  have n: "get_node s' b = get_node s b" for b
    using get_node_set_position[OF assms(2)] .
  have p: "get_position s b \<noteq> None \<Longrightarrow> get_position s' b \<noteq> None" for b
    by (cases "b = a") (simp_all add: get_position_def s')
  have "lim s' = lim s" using s' by simp
  then show ?thesis
    using assms(1) n p unfolding nodes_ok_def by metis
qed

lemma set_position_total:
  "nodes_ok L s \<Longrightarrow> L \<le> a \<Longrightarrow> a < lim s \<Longrightarrow> \<exists>s'. set_position s a p = Some s'"
  by (auto simp: nodes_ok_def set_position_def get_node_def split: option.splits)

lemma updateLayout_total:
  "\<forall>L. nodes_ok L s \<longrightarrow> L \<le> this \<longrightarrow> this < lim s \<longrightarrow> lim s - this \<le> fuel
      \<longrightarrow> (\<exists>s'. st_updateLayout fuel s this = Some s' \<and> nodes_ok L s' \<and> lim s' = lim s)"
  "\<forall>L. nodes_ok L s \<longrightarrow> L \<le> this \<longrightarrow> this < lim s
      \<longrightarrow> (\<forall>c \<in> set cs. L \<le> c \<and> c < lim s \<and> lim s - c \<le> fuel)
      \<longrightarrow> (\<exists>s'. st_forEach_child fuel s this angleStep radius index cs = Some s'
               \<and> nodes_ok L s' \<and> lim s' = lim s)"
proof (induction fuel s this and fuel s this angleStep radius index cs
       rule: st_updateLayout_st_forEach_child.induct)
  case (1 s this)
  then show ?case by auto
next
  case (2 fuel s this)
  show ?case
  proof (intro allI impI)
    fix L
    assume ok: "nodes_ok L s" and r: "L \<le> this" "this < lim s" and f: "lim s - this \<le> Suc fuel"
    obtain nd where nd: "get_node s this = Some nd"
      and ch: "\<forall>c \<in> set (nf_children nd). this < c \<and> c < lim s"
      using ok r unfolding nodes_ok_def by blast
    have "\<forall>c \<in> set (nf_children nd). L \<le> c \<and> c < lim s \<and> lim s - c \<le> fuel"
      using ch r f by auto
    then have "\<exists>s'. st_forEach_child fuel s this (2 * pi / real (length (nf_children nd)))
                   (max 0.5 (real (length (nf_children nd)) * 0.2)) 0 (nf_children nd) = Some s'
               \<and> nodes_ok L s' \<and> lim s' = lim s"
      using 2[OF nd refl refl] ok r by blast
    then show "\<exists>s'. st_updateLayout (Suc fuel) s this = Some s' \<and> nodes_ok L s' \<and> lim s' = lim s"
      using nd by (simp add: Let_def)
  qed
next
  case (3 fuel s this angleStep radius index)
  then show ?case by simp
next
  case (4 fuel s this angleStep radius index child rest)
  show ?case
  proof (intro allI impI)
    fix L
    assume ok: "nodes_ok L s" and r: "L \<le> this" "this < lim s"
      and cs: "\<forall>c \<in> set (child # rest). L \<le> c \<and> c < lim s \<and> lim s - c \<le> fuel"
    obtain p where p: "get_position s this = Some p"
      using ok r unfolding nodes_ok_def by blast
    let ?q = "\<lparr>pos_x = pos_x p + cos (angleStep * real index) * radius,
                  pos_y = pos_y p - 0.5,
                  pos_z = pos_z p + sin (angleStep * real index) * radius\<rparr>"
    obtain s1 where s1: "set_position s child ?q = Some s1"
      using set_position_total[OF ok, of child] cs by auto
    have ok1: "nodes_ok L s1" and l1: "lim s1 = lim s"
      using nodes_ok_set_position[OF ok s1] lim_set_position[OF s1] by simp_all
    obtain s2 where s2: "st_updateLayout fuel s1 child = Some s2"
      and ok2: "nodes_ok L s2" and l2: "lim s2 = lim s"
      using 4(1)[OF p refl s1] ok1 l1 cs by auto
    have "\<exists>s'. st_forEach_child fuel s2 this angleStep radius (index + 1) rest = Some s'
               \<and> nodes_ok L s' \<and> lim s' = lim s2"
      using 4(2)[OF p refl s1 s2] ok2 l2 r cs by auto
    then show "\<exists>s'. st_forEach_child fuel s this angleStep radius index (child # rest) = Some s'
               \<and> nodes_ok L s' \<and> lim s' = lim s"
      using p s1 s2 l2 by (auto simp: Let_def)
  qed
qed

lemma tsize_pos: "0 < tsize task"
  by (cases "task_subtasks task") (simp_all add: tsize.simps[of task])

lemma tsize_subtasks:
  "task_subtasks task = Some subs \<Longrightarrow> tsize task = 1 + sum_list (map tsize subs)"
  by (simp add: tsize.simps[of task])

lemma task_at_get:
  assumes "task_at s a task"
  obtains tk where "get_task s a = Some tk"
    and "case task_subtasks task of
           None \<Rightarrow> tf_subtasks tk = None
         | Some subs \<Rightarrow> (\<exists>as. tf_subtasks tk = Some as \<and> list_all2 (task_at s) as subs)"
proof -
  from assms have *: "case get_task s a of
        None \<Rightarrow> False
      | Some tk \<Rightarrow>
          tf_id tk = task_id task \<and> tf_title tk = task_title task
          \<and> tf_description tk = task_description task \<and> tf_status tk = task_status task
          \<and> tf_dependencies tk = task_dependencies task
          \<and> tf_complexity tk = task_complexity task
          \<and> (case task_subtasks task of
                None \<Rightarrow> tf_subtasks tk = None
              | Some subs \<Rightarrow>
                  (case tf_subtasks tk of
                     None \<Rightarrow> False
                   | Some as \<Rightarrow> list_all2 (\<lambda>a sub. task_at s a sub) as subs))"
    by (simp add: task_at.simps[of s a task])
  then obtain tk where tk: "get_task s a = Some tk"
    by (cases "get_task s a") auto
  have "case task_subtasks task of
           None \<Rightarrow> tf_subtasks tk = None
         | Some subs \<Rightarrow> (\<exists>as. tf_subtasks tk = Some as \<and> list_all2 (task_at s) as subs)"
    using * tk by (cases "task_subtasks task"; cases "tf_subtasks tk") auto
  then show ?thesis using that tk by blast
qed

lemma get_task_below:
  assumes "store_ok s" "get_task s a = Some tk"
  shows "a < lim s"
proof (rule ccontr)
  assume "\<not> a < lim s"
  then have "objs s a = None" using assms(1) by (simp add: store_ok_def)
  then show False using assms(2) by (simp add: get_task_def)
qed

lemma get_task_frame:
  "frame_inv s0 s \<Longrightarrow> a < lim s0 \<Longrightarrow> get_task s a = get_task s0 a"
  by (simp add: frame_inv_def get_task_def)

lemma new_FractalNode_total:
  assumes "get_task s t = Some tk" "nodes_ok L s" "L \<le> lim s"
  shows "\<exists>s'. st_new_FractalNode s t d = Some (lim s, s') \<and> nodes_ok L s' \<and> lim s' = lim s + 1"
proof -
  let ?ob = "\<lparr>obj_kind = NodeObj \<lparr>nf_task = t, nf_depth = d, nf_children = [],
                              nf_size = 1.0, nf_complexity = st_calculateComplexity tk\<rparr>,
              obj_position = Some \<lparr>pos_x = 0, pos_y = 0, pos_z = 0\<rparr>\<rparr>"
  let ?s' = "s\<lparr>objs := (objs s)(lim s \<mapsto> ?ob), lim := lim s + 1\<rparr>"
  have run: "st_new_FractalNode s t d = Some (lim s, ?s')"
    using assms(1) by (simp add: st_new_FractalNode_def alloc_def)
  have "nodes_ok L ?s'"
    unfolding nodes_ok_def
  proof (intro allI impI)
    fix a assume a: "L \<le> a \<and> a < lim ?s'"
    show "\<exists>nd. get_node ?s' a = Some nd \<and> get_position ?s' a \<noteq> None
              \<and> (\<forall>c \<in> set (nf_children nd). a < c \<and> c < lim ?s')"
    proof (cases "a = lim s")
      case True
      then show ?thesis by (simp add: get_node_def get_position_def)
    next
      case False
      then have "L \<le> a \<and> a < lim s" using a by simp
      then obtain nd where "get_node s a = Some nd" "get_position s a \<noteq> None"
        "\<forall>c \<in> set (nf_children nd). a < c \<and> c < lim s"
        using assms(2) unfolding nodes_ok_def by blast
      then show ?thesis using False by (auto simp: get_node_def get_position_def)
    qed
  qed
  then show ?thesis using run by simp
qed

lemma push_child_total:
  assumes "nodes_ok L s" "L \<le> n" "n < c" "c < lim s"
  shows "\<exists>s'. push_child s n c = Some s' \<and> nodes_ok L s' \<and> lim s' = lim s"
proof -
  obtain nd where nd: "get_node s n = Some nd" and pos: "get_position s n \<noteq> None"
    and ch: "\<forall>x \<in> set (nf_children nd). n < x \<and> x < lim s"
    using assms unfolding nodes_ok_def by (meson less_trans)
  obtain ob where ob: "objs s n = Some ob" "obj_kind ob = NodeObj nd"
    using nd by (auto simp: get_node_def split: option.splits kind.splits)
  let ?s' = "s\<lparr>objs := (objs s)(n \<mapsto>
               ob\<lparr>obj_kind := NodeObj (nd\<lparr>nf_children := nf_children nd @ [c]\<rparr>)\<rparr>)\<rparr>"
  have run: "push_child s n c = Some ?s'"
    using ob by (simp add: push_child_def)
  have "nodes_ok L ?s'"
    unfolding nodes_ok_def
  proof (intro allI impI)
    fix a assume a: "L \<le> a \<and> a < lim ?s'"
    show "\<exists>nd'. get_node ?s' a = Some nd' \<and> get_position ?s' a \<noteq> None
              \<and> (\<forall>x \<in> set (nf_children nd'). a < x \<and> x < lim ?s')"
    proof (cases "a = n")
      case True
      then show ?thesis
        using ch assms(3,4) pos ob by (auto simp: get_node_def get_position_def)
    next
      case False
      obtain nd' where "get_node s a = Some nd'" "get_position s a \<noteq> None"
        "\<forall>x \<in> set (nf_children nd'). a < x \<and> x < lim s"
        using assms(1) a unfolding nodes_ok_def by auto
      then show ?thesis using False by (auto simp: get_node_def get_position_def)
    qed
  qed
  then show ?thesis using run by simp
qed

lemma addChild_total:
  assumes "nodes_ok L s" "L \<le> n" "n < c" "c < lim s" "lim s - n \<le> fuel"
  shows "\<exists>s'. st_addChild fuel s n c = Some s' \<and> nodes_ok L s' \<and> lim s' = lim s"
proof -
  obtain s1 where s1: "push_child s n c = Some s1" "nodes_ok L s1" "lim s1 = lim s"
    using push_child_total[OF assms(1-4)] by auto
  have "n < lim s1" using assms(3,4) s1(3) by simp
  then obtain s2 where "st_updateLayout fuel s1 n = Some s2" "nodes_ok L s2" "lim s2 = lim s1"
    using updateLayout_total(1)[of s1 n fuel] s1 assms(2,5) by auto
  then show ?thesis using s1 by (auto simp: st_addChild_def)
qed

lemma forEach_subtask_total:
  assumes "list_all2 (task_at s0) as subs"
    and "\<forall>sub \<in> set subs. builds s0 this sub (d + 1)"
    and "frame_inv s0 s" "nodes_ok (lim s0) s" "lim s0 \<le> node" "node < lim s"
    and "lim s - node + sum_list (map tsize subs) \<le> f"
    and "\<forall>sub \<in> set subs. tsize sub + 1 \<le> f"
  shows "\<exists>s'. st_forEach_subtask f this s node d as = Some s' \<and> frame_inv s0 s'
              \<and> nodes_ok (lim s0) s' \<and> lim s \<le> lim s'
              \<and> lim s' \<le> lim s + sum_list (map tsize subs)"
  using assms
proof (induction as subs arbitrary: s rule: list_all2_induct)
  case Nil
  then show ?case by simp
next
  case (Cons a as sub subs)
  have b: "builds s0 this sub (d + 1)" using Cons.prems(1) by simp
  have fuel: "tsize sub + 1 \<le> f" using Cons.prems(7) by simp
  obtain s1 where s1: "st_buildTree f this s a (d + 1) = Some (lim s, s1)"
    and i1: "frame_inv s0 s1" and n1: "nodes_ok (lim s0) s1"
    and l1: "lim s < lim s1" "lim s1 \<le> lim s + tsize sub"
    using b[unfolded builds_def, rule_format, OF Cons.hyps(1) Cons.prems(2,3) fuel] by blast
  have "lim s1 - node \<le> f" using l1 Cons.prems(5,6) by simp
  then obtain s2 where s2: "st_addChild f s1 node (lim s) = Some s2"
    and n2: "nodes_ok (lim s0) s2" and l2: "lim s2 = lim s1"
    using addChild_total[OF n1 Cons.prems(4) Cons.prems(5) l1(1)] by blast
  have fresh: "lim s0 \<le> lim s" using Cons.prems(2) by (simp add: frame_inv_def)
  have i2: "frame_inv s0 s2"
    using inv_addChild[OF i1 Cons.prems(4) fresh s2] .
  have budget: "lim s2 - node + sum_list (map tsize subs) \<le> f"
    using l1 l2 Cons.prems(5,6) by simp
  have p1: "\<forall>sub \<in> set subs. builds s0 this sub (d + 1)" using Cons.prems(1) by simp
  have p5: "node < lim s2" using Cons.prems(5) l1 l2 by simp
  have p7: "\<forall>sub \<in> set subs. tsize sub + 1 \<le> f" using Cons.prems(7) by simp
  obtain s' where r: "st_forEach_subtask f this s2 node d as = Some s'"
    and i': "frame_inv s0 s'" and n': "nodes_ok (lim s0) s'"
    and l': "lim s2 \<le> lim s'" "lim s' \<le> lim s2 + sum_list (map tsize subs)"
    using Cons.IH[OF p1 i2 n2 Cons.prems(4) p5 budget p7] by blast
  have "st_forEach_subtask f this s node d (a # as) = Some s'"
    using s1 s2 r by simp
  moreover have "lim s \<le> lim s'" using l' l1 l2 by simp
  moreover have "lim s' \<le> lim s + sum_list (map tsize (sub # subs))" using l' l1 l2 by simp
  ultimately show ?case using i' n' by blast
qed

lemma buildTree_total:
  assumes "store_ok s0"
  shows "builds s0 this task d"
proof (induction this task d rule: buildTree.induct)
  case (1 this task depth)
  show ?case
    unfolding builds_def
  proof (intro allI impI)
    fix s t fuel
    assume at: "task_at s0 t task" and inv: "frame_inv s0 s" and ok: "nodes_ok (lim s0) s"
      and fuel: "tsize task + 1 \<le> fuel"
    obtain f where f: "fuel = Suc f" "tsize task \<le> f"
      using fuel by (cases fuel) auto
    obtain tk where tk0: "get_task s0 t = Some tk"
      and subs: "case task_subtasks task of
           None \<Rightarrow> tf_subtasks tk = None
         | Some subs \<Rightarrow> (\<exists>as. tf_subtasks tk = Some as \<and> list_all2 (task_at s0) as subs)"
      using at by (rule task_at_get)
    have tL: "t < lim s0" using get_task_below[OF assms tk0] .
    have tk: "get_task s t = Some tk" using get_task_frame[OF inv tL] tk0 by simp
    have L: "lim s0 \<le> lim s" using inv by (simp add: frame_inv_def)
    obtain s1 where n: "st_new_FractalNode s t depth = Some (lim s, s1)"
      and ok1: "nodes_ok (lim s0) s1" and l1: "lim s1 = lim s + 1"
      using new_FractalNode_total[OF tk ok L] by blast
    have i1: "frame_inv s0 s1" using inv_new_FractalNode[OF inv n] by simp
    have tk1: "get_task s1 t = Some tk" using get_task_frame[OF i1 tL] tk0 by simp
    have head: "st_buildTree fuel this s t depth =
          (case tf_subtasks tk of
             Some subs \<Rightarrow>
               if depth < maxDepth this
               then do { sa \<leftarrow> st_forEach_subtask f this s1 (lim s) depth subs; Some (lim s, sa) }
               else Some (lim s, s1)
           | None \<Rightarrow> Some (lim s, s1))"
      using n tk1 f by simp
    have stop: "\<exists>s'. Some (lim s, s1) = Some (lim s, s') \<and> frame_inv s0 s'
                 \<and> nodes_ok (lim s0) s' \<and> lim s < lim s' \<and> lim s' \<le> lim s + tsize task"
      using i1 ok1 l1 tsize_pos[of task] by simp
    show "\<exists>s'. st_buildTree fuel this s t depth = Some (lim s, s') \<and> frame_inv s0 s'
                 \<and> nodes_ok (lim s0) s' \<and> lim s < lim s' \<and> lim s' \<le> lim s + tsize task"
    proof (cases "task_subtasks task")
      case None
      then have "tf_subtasks tk = None" using subs by simp
      then show ?thesis using head stop by simp
    next
      case (Some ts)
      then obtain as where as: "tf_subtasks tk = Some as" "list_all2 (task_at s0) as ts"
        using subs by auto
      show ?thesis
      proof (cases "depth < maxDepth this")
        case False
        then show ?thesis using head stop as by simp
      next
        case True
        have each: "\<forall>sub \<in> set ts. builds s0 this sub (depth + 1)"
          using 1 Some True by simp
        have sz: "tsize task = 1 + sum_list (map tsize ts)"
          using tsize_subtasks[OF Some] .
        have budget: "lim s1 - lim s + sum_list (map tsize ts) \<le> f"
          using l1 sz f by simp
        have small: "\<forall>sub \<in> set ts. tsize sub + 1 \<le> f"
        proof
          fix sub assume "sub \<in> set ts"
          then have "tsize sub \<le> sum_list (map tsize ts)"
            by (simp add: member_le_sum_list)
          then show "tsize sub + 1 \<le> f" using sz f by simp
        qed
        have nd: "lim s < lim s1" using l1 by simp
        obtain s' where r: "st_forEach_subtask f this s1 (lim s) depth as = Some s'"
          and i': "frame_inv s0 s'" and n': "nodes_ok (lim s0) s'"
          and l': "lim s1 \<le> lim s'" "lim s' \<le> lim s1 + sum_list (map tsize ts)"
          using forEach_subtask_total[OF as(2) each i1 ok1 L nd budget small] by blast
        have "st_buildTree fuel this s t depth = Some (lim s, s')"
          using head as True r by simp
        moreover have "lim s < lim s'" using l' l1 by simp
        moreover have "lim s' \<le> lim s + tsize task" using l' l1 sz by simp
        ultimately show ?thesis using i' n' by blast
      qed
    qed
  qed
qed

lemma createFractalTree_total:
  assumes "store_ok s" "task_at s t task" "tsize task + 1 \<le> fuel"
  shows "\<exists>r s'. st_createFractalTree fuel this s t = Some (r, s')"
proof -
  have "nodes_ok (lim s) s" by (auto simp: nodes_ok_def)
  then obtain s1 where b: "st_buildTree fuel this s t 0 = Some (lim s, s1)"
    and n1: "nodes_ok (lim s) s1" and l1: "lim s < lim s1" "lim s1 \<le> lim s + tsize task"
    using buildTree_total[OF assms(1), of this task 0] assms(2,3) frame_inv_start[OF assms(1)]
    unfolding builds_def by blast
  obtain s2 where p: "set_position s1 (lim s) \<lparr>pos_x = 0, pos_y = 2, pos_z = 0\<rparr> = Some s2"
    using set_position_total[OF n1, of "lim s"] l1 by auto
  have n2: "nodes_ok (lim s) s2" and l2: "lim s2 = lim s1"
    using nodes_ok_set_position[OF n1 p] lim_set_position[OF p] by simp_all
  have "lim s2 - lim s \<le> fuel" using l1 l2 assms(3) by simp
  then obtain s3 where "st_updateLayout fuel s2 (lim s) = Some s3"
    using updateLayout_total(1)[of s2 "lim s" fuel] n2 l1 l2 by auto
  then show ?thesis using b p by (simp add: st_createFractalTree_def)
qed

lemma task_at_fields:
  assumes "task_at s a task" "get_task s a = Some tk"
  shows "tf_id tk = task_id task" "tf_title tk = task_title task"
    "tf_description tk = task_description task" "tf_dependencies tk = task_dependencies task"
    "tf_complexity tk = task_complexity task"
  using assms by (simp_all add: task_at.simps[of s a task])

lemma forEach_analyze_refines:
  assumes "list_all2 (task_at s) as subs"
    and "\<forall>sub \<in> set subs. \<forall>a. task_at s a sub \<longrightarrow>
           st_analyzeComplexity f s a = Some (analyzeComplexity sub)"
  shows "st_forEach_analyze f s score as
           = Some (foldl (\<lambda>score subtask. score + analyzeComplexity subtask * 0.5) score subs)"
  using assms
proof (induction as subs arbitrary: score rule: list_all2_induct)
  case Nil
  then show ?case by simp
next
  case (Cons a as sub subs)
  have "st_analyzeComplexity f s a = Some (analyzeComplexity sub)"
    using Cons.prems Cons.hyps(1) by simp
  moreover have "st_forEach_analyze f s (score + analyzeComplexity sub * 0.5) as
      = Some (foldl (\<lambda>score subtask. score + analyzeComplexity subtask * 0.5)
                (score + analyzeComplexity sub * 0.5) subs)"
    using Cons.IH[of "score + analyzeComplexity sub * 0.5"] Cons.prems by simp
  ultimately show ?case by simp
qed

lemma analyzeComplexity_refines:
  "\<forall>a fuel. task_at s a task \<longrightarrow> tsize task \<le> fuel
      \<longrightarrow> st_analyzeComplexity fuel s a = Some (analyzeComplexity task)"
proof (induction task rule: analyzeComplexity.induct)
  case (1 task)
  show ?case
  proof (intro allI impI)
    fix a fuel
    assume at: "task_at s a task" and fuel: "tsize task \<le> fuel"
    obtain f where f: "fuel = Suc f" "tsize task \<le> Suc f"
      using fuel tsize_pos[of task] by (cases fuel) auto
    obtain tk where tk: "get_task s a = Some tk"
      and subs: "case task_subtasks task of
           None \<Rightarrow> tf_subtasks tk = None
         | Some subs \<Rightarrow> (\<exists>as. tf_subtasks tk = Some as \<and> list_all2 (task_at s) as subs)"
      using at by (rule task_at_get)
    note fields = task_at_fields[OF at tk]
    let ?s1 = "case task_description task of
                 Some d \<Rightarrow> if d \<noteq> [] then 1 + analyzeTextComplexity d else 1
               | None \<Rightarrow> (1::real)"
    let ?s2 = "case task_subtasks task of
                 Some subs \<Rightarrow>
                   foldl (\<lambda>score subtask. score + analyzeComplexity subtask * 0.5)
                         (?s1 + real (length subs)) subs
               | None \<Rightarrow> ?s1"
    have loop: "(case tf_subtasks tk of
                   Some subs \<Rightarrow> st_forEach_analyze f s (?s1 + real (length subs)) subs
                 | None \<Rightarrow> Some ?s1) = Some ?s2"
    proof (cases "task_subtasks task")
      case None
      then show ?thesis using subs by simp
    next
      case (Some ts)
      then obtain as where as: "tf_subtasks tk = Some as" "list_all2 (task_at s) as ts"
        using subs by auto
      have len: "length as = length ts" using as(2) by (rule list_all2_lengthD)
      have each: "\<forall>sub \<in> set ts. \<forall>a. task_at s a sub \<longrightarrow>
           st_analyzeComplexity f s a = Some (analyzeComplexity sub)"
      proof (intro ballI allI impI)
        fix sub b assume sub: "sub \<in> set ts" and b: "task_at s b sub"
        have "tsize sub \<le> sum_list (map tsize ts)"
          using sub by (simp add: member_le_sum_list)
        then have "tsize sub \<le> f" using tsize_subtasks[OF Some] f by simp
        then show "st_analyzeComplexity f s b = Some (analyzeComplexity sub)"
          using 1[OF refl refl Some sub] b by blast
      qed
      show ?thesis
        using forEach_analyze_refines[OF as(2) each, of "?s1 + real (length ts)"] as Some len
        by simp
    qed
    have "st_analyzeComplexity (Suc f) s a =
            do { score \<leftarrow> (case tf_subtasks tk of
                   Some subs \<Rightarrow> st_forEach_analyze f s (?s1 + real (length subs)) subs
                 | None \<Rightarrow> Some ?s1);
                 Some (min 10 (case task_dependencies task of
                      Some deps \<Rightarrow> score + real (length deps) * 0.5
                    | None \<Rightarrow> score)) }"
      by (cases "tf_subtasks tk") (simp_all add: tk Let_def fields(3,4))
    also have "\<dots> = Some (min 10 (case task_dependencies task of
                      Some deps \<Rightarrow> ?s2 + real (length deps) * 0.5
                    | None \<Rightarrow> ?s2))"
      unfolding loop by simp
    also have "\<dots> = Some (analyzeComplexity task)"
      by (simp add: analyzeComplexity.simps[of task] Let_def)
    finally show "st_analyzeComplexity fuel s a = Some (analyzeComplexity task)"
      using f(1) by simp
  qed
qed

lemma task_view_agrees:
  assumes "task_at s a task" "get_task s a = Some tk"
  shows "identifyPatterns (task_view tk) = identifyPatterns task"
    "createSubtask h (task_view tk) title w = createSubtask h task title w"
  using task_at_fields[OF assms]
  by (simp_all add: identifyPatterns_def createSubtask_def task_view_def)

lemma suggestDecomposition_returns: "\<exists>stubs. suggestDecomposition env task = Inr stubs"
proof (cases "task_description task")
  case None
  then show ?thesis
    by (simp add: suggestDecomposition_def suggestDecomposition_with_def identifyPatterns_no_description Let_def)
next
  case (Some d)
  then show ?thesis
    by (simp add: suggestDecomposition_def suggestDecomposition_with_def Let_def)
qed

lemma suggestDecomposition_refines:
  assumes "task_at s a task" "tsize task \<le> fuel" "suggestDecomposition env task = Inr stubs"
  shows "st_suggestDecomposition fuel env s a =
           Some (alloc_all s (map (\<lambda>st. \<lparr>obj_kind = StubObj st, obj_position = None\<rparr>) stubs))"
proof -
  obtain tk where tk: "get_task s a = Some tk"
    using assms(1) by (rule task_at_get)
  note fields = task_at_fields[OF assms(1) tk]
  note view = task_view_agrees[OF assms(1) tk]
  have c: "st_analyzeComplexity fuel s a = Some (analyzeComplexity task)"
    using analyzeComplexity_refines assms(1,2) by blast
  show ?thesis
  proof (cases "task_description task")
    case None
    then show ?thesis
      using assms(3) tk c fields(3)
      by (simp add: st_suggestDecomposition_def suggestDecomposition_def suggestDecomposition_with_def view Let_def
            identifyPatterns_no_description)
  next
    case (Some d)
    then show ?thesis
      using assms(3) tk c fields(3)
      by (auto simp: st_suggestDecomposition_def suggestDecomposition_def suggestDecomposition_with_def view Let_def)
  qed
qed

lemma example_pair_at: "task_at example_store 0 example_pair"
  by (simp add: task_at.simps example_store_def example_pair_def example_leaf_def get_task_def)

lemma tsize_example_pair: "tsize example_pair = 3"
  by (simp add: tsize.simps example_pair_def example_leaf_def)

text \<open>
  Claim C9. Neither \<^verbatim>\<open>createFractalTree\<close> nor \<^verbatim>\<open>suggestDecomposition\<close> changes an object
  that exists when it is called: whenever the call returns, every such object, so the
  task it was given and every nested subtask, is in the store as it was. All the
  assignments go to nodes that the call itself made; the root node returned is new, and
  the stubs returned are new objects, distinct from each other. And the calls do return:
  when the store holds a task tree at the address given, fuel beyond the number of
  tasks in the tree is enough for both.
\<close>

theorem tasks_not_mutated:
  assumes "store_ok s"
  shows "(st_createFractalTree fuel this s a = Some (r, s')
            \<longrightarrow> unchanged s s' \<and> objs s r = None)
       \<and> (st_suggestDecomposition fuel env s a = Some (stubs, s'')
            \<longrightarrow> unchanged s s'' \<and> (\<forall>b \<in> set stubs. objs s b = None) \<and> distinct stubs
                \<and> (\<forall>b \<in> set stubs. \<exists>st.
                      objs s'' b = Some \<lparr>obj_kind = StubObj st, obj_position = None\<rparr>))
       \<and> (task_at s a task \<and> tsize task + 1 \<le> fuel
            \<longrightarrow> (\<exists>r s'. st_createFractalTree fuel this s a = Some (r, s'))
                \<and> (\<exists>stubs s''. st_suggestDecomposition fuel env s a = Some (stubs, s'')))"
proof (intro conjI impI)
  assume "st_createFractalTree fuel this s a = Some (r, s')"
  then show "unchanged s s'" "objs s r = None"
    using createFractalTree_frame[OF assms] by blast+
next
  assume "st_suggestDecomposition fuel env s a = Some (stubs, s'')"
  then show "unchanged s s''" "\<forall>b \<in> set stubs. objs s b = None" "distinct stubs"
    "\<forall>b \<in> set stubs. \<exists>st. objs s'' b = Some \<lparr>obj_kind = StubObj st, obj_position = None\<rparr>"
    using suggestDecomposition_frame[OF assms] by blast+
next
  assume h: "task_at s a task \<and> tsize task + 1 \<le> fuel"
  then show "\<exists>r s'. st_createFractalTree fuel this s a = Some (r, s')"
    using createFractalTree_total[OF assms] by blast
  obtain st where "suggestDecomposition env task = Inr st"
    using suggestDecomposition_returns by blast
  then have "st_suggestDecomposition fuel env s a =
           Some (alloc_all s (map (\<lambda>st. \<lparr>obj_kind = StubObj st, obj_position = None\<rparr>) st))"
    using suggestDecomposition_refines[of s a task fuel env st] h by simp
  then show "\<exists>stubs s''. st_suggestDecomposition fuel env s a = Some (stubs, s'')"
    by (metis surj_pair)
qed

theorem tasks_not_mutated_witness:
  "store_ok example_store \<and> task_at example_store 0 example_pair
   \<and> (\<exists>r s'. st_createFractalTree 4 new_FractalAlgorithm example_store 0 = Some (r, s')
        \<and> unchanged example_store s')
   \<and> (\<exists>stubs s''. st_suggestDecomposition 4 example_env example_store 0 = Some (stubs, s'')
        \<and> unchanged example_store s'' \<and> distinct stubs)"
proof -
  have h: "task_at example_store 0 example_pair \<and> tsize example_pair + 1 \<le> 4"
    by (simp add: example_pair_at tsize_example_pair)
  note t = tasks_not_mutated[OF example_store_ok, of 4 new_FractalAlgorithm 0 _ _ example_env _ _ example_pair]
  obtain r s' where a: "st_createFractalTree 4 new_FractalAlgorithm example_store 0 = Some (r, s')"
    using t h by blast
  obtain stubs s'' where b: "st_suggestDecomposition 4 example_env example_store 0 = Some (stubs, s'')"
    using t h by blast
  have "unchanged example_store s'"
    using tasks_not_mutated[OF example_store_ok, of 4 new_FractalAlgorithm 0 r s'] a by blast
  moreover have "unchanged example_store s'' \<and> distinct stubs"
    using tasks_not_mutated[OF example_store_ok, of 4 _ 0 _ _ example_env stubs s''] b by blast
  ultimately show ?thesis
    using a b example_store_ok example_pair_at by blast
qed

end
